theory Spec2Isabelle
  imports Complex_Main
begin

section \<open>Quantum metric learning for ants and bees: the notebook's functions\<close>

text \<open>
  The development embeds the code cells of
  \<^verbatim>\<open>tutorial_embedding_generalization_antbee_pca.ipynb\<close>: the quantum feature map
  (\<^verbatim>\<open>feature_encoding_hamiltonian\<close>, \<^verbatim>\<open>ising_hamiltonian\<close>, \<^verbatim>\<open>QAOAEmbedding\<close>), the
  SWAP test, \<^verbatim>\<open>overlaps\<close>, \<^verbatim>\<open>cost\<close>, \<^verbatim>\<open>predict\<close> and the derived metrics.

  Conventions.
  \<^item> NumPy floats are modelled by the reals: every statement below is about exact
    arithmetic, so rounding is outside the model. A value that the notebook computes
    differs from the value here by its rounding error.
  \<^item> A Python exception is a value \<open>Inl e\<close> of the result type \<open>py_error + 'a\<close>.
  \<^item> A NumPy vector is a list of reals, a NumPy matrix the list of its rows.
  \<^item> The parameter bundle \<^verbatim>\<open>weights = [classical, quantum]\<close> is a pair of matrices.
\<close>

subsection \<open>Errors, vectors, matrices\<close>

datatype py_error = ZeroDivisionError | IndexError | ValueError | WireError

type_synonym vec = "real list"
type_synonym matrix = "real list list"
type_synonym param_bundle = "matrix \<times> matrix"

definition dot :: "vec \<Rightarrow> vec \<Rightarrow> real" where
  "dot r x = sum_list (map (\<lambda>i. r ! i * x ! i) [0..<length r])"

text \<open>
  \<^verbatim>\<open>linear_layer @ x\<close>: a matrix of shape \<open>(r, c)\<close> times a vector of length \<open>n\<close> is the
  vector of the \<open>r\<close> row products when \<open>c = n\<close>; NumPy raises \<^verbatim>\<open>ValueError\<close> otherwise.
  (A list of rows keeps no column count for a matrix without rows; such a matrix yields
  the empty vector here, and the feature map then fails on its first index.)
\<close>

definition matvec :: "matrix \<Rightarrow> vec \<Rightarrow> py_error + vec" where
  "matvec m x =
     (if list_all (\<lambda>r. length r = length x) m then Inr (map (\<lambda>r. dot r x) m)
      else Inl ValueError)"

text \<open>\<^verbatim>\<open>weights[l, j]\<close> on a two-dimensional array, for indices that are not negative.\<close>

definition weight_at :: "matrix \<Rightarrow> nat \<Rightarrow> nat \<Rightarrow> py_error + real" where
  "weight_at weights l j =
     (if l < length weights \<and> j < length (weights ! l) then Inr (weights ! l ! j)
      else Inl IndexError)"

subsection \<open>Operations queued by the feature map\<close>

text \<open>
  Inside a QNode every call \<^verbatim>\<open>RX(angle, wires=w)\<close>, \<^verbatim>\<open>CNOT(wires=[c, t])\<close>, ... queues one
  operation; the device applies the queue in order afterwards. A function of the feature
  map is therefore modelled by the list of operations it queues, or by the exception
  that stops it.
\<close>

datatype gate =
    RX real nat
  | RY real nat
  | RZ real nat
  | CNOT nat nat
  | Hadamard nat
  | CSWAP nat nat nat

text \<open>
  \<^verbatim>\<open>
  def feature_encoding_hamiltonian(features, wires):
      for idx, w in enumerate(wires):
          RX(features[idx], wires=w)
  \<close>
\<close>

fun feature_encoding_loop :: "vec \<Rightarrow> nat \<Rightarrow> nat list \<Rightarrow> py_error + gate list" where
  "feature_encoding_loop features idx [] = Inr []"
| "feature_encoding_loop features idx (w # ws) =
     (if idx < length features
      then (case feature_encoding_loop features (Suc idx) ws of
              Inl e \<Rightarrow> Inl e
            | Inr g \<Rightarrow> Inr (RX (features ! idx) w # g))
      else Inl IndexError)"

definition feature_encoding_hamiltonian :: "vec \<Rightarrow> nat list \<Rightarrow> py_error + gate list" where
  "feature_encoding_hamiltonian features wires = feature_encoding_loop features 0 wires"

text \<open>
  \<^verbatim>\<open>
  def ising_hamiltonian(weights, wires, l):
      # ZZ coupling
      CNOT(wires=[wires[1], wires[0]])
      RZ(weights[l, 0], wires=wires[0])
      CNOT(wires=[wires[1], wires[0]])
      # local fields
      for idx, w in enumerate(wires):
          RY(weights[l, idx + 1], wires=w)
  \<close>
  \<^verbatim>\<open>wires[1]\<close> raises \<^verbatim>\<open>IndexError\<close> on a list shorter than two, and PennyLane refuses a
  \<^verbatim>\<open>CNOT\<close> whose two wires coincide (\<^verbatim>\<open>WireError\<close>).
\<close>

fun local_fields_loop :: "matrix \<Rightarrow> nat \<Rightarrow> nat \<Rightarrow> nat list \<Rightarrow> py_error + gate list" where
  "local_fields_loop weights l idx [] = Inr []"
| "local_fields_loop weights l idx (w # ws) =
     (case weight_at weights l (idx + 1) of
        Inl e \<Rightarrow> Inl e
      | Inr a \<Rightarrow>
          (case local_fields_loop weights l (Suc idx) ws of
             Inl e \<Rightarrow> Inl e
           | Inr g \<Rightarrow> Inr (RY a w # g)))"

definition ising_hamiltonian :: "matrix \<Rightarrow> nat list \<Rightarrow> nat \<Rightarrow> py_error + gate list" where
  "ising_hamiltonian weights wires l =
     (if length wires < 2 then Inl IndexError
      else if wires ! 1 = wires ! 0 then Inl WireError
      else
        (case weight_at weights l 0 of
           Inl e \<Rightarrow> Inl e
         | Inr a \<Rightarrow>
             (case local_fields_loop weights l 0 wires of
                Inl e \<Rightarrow> Inl e
              | Inr g \<Rightarrow>
                  Inr ([CNOT (wires ! 1) (wires ! 0), RZ a (wires ! 0),
                        CNOT (wires ! 1) (wires ! 0)] @ g))))"

text \<open>
  \<^verbatim>\<open>
  def QAOAEmbedding(features, weights, wires):
      repeat = len(weights)
      for l in range(repeat):
          # apply alternating Hamiltonians
          feature_encoding_hamiltonian(features, wires)
          ising_hamiltonian(weights, wires, l)
      # repeat the feature encoding once more at the end
      feature_encoding_hamiltonian(features, wires)
  \<close>
\<close>

fun QAOA_layers :: "vec \<Rightarrow> matrix \<Rightarrow> nat list \<Rightarrow> nat list \<Rightarrow> py_error + gate list" where
  "QAOA_layers features weights wires [] = Inr []"
| "QAOA_layers features weights wires (l # ls) =
     (case feature_encoding_hamiltonian features wires of
        Inl e \<Rightarrow> Inl e
      | Inr g1 \<Rightarrow>
          (case ising_hamiltonian weights wires l of
             Inl e \<Rightarrow> Inl e
           | Inr g2 \<Rightarrow>
               (case QAOA_layers features weights wires ls of
                  Inl e \<Rightarrow> Inl e
                | Inr g3 \<Rightarrow> Inr (g1 @ g2 @ g3))))"

definition QAOAEmbedding :: "vec \<Rightarrow> matrix \<Rightarrow> nat list \<Rightarrow> py_error + gate list" where
  "QAOAEmbedding features weights wires =
     (case QAOA_layers features weights wires [0..<length weights] of
        Inl e \<Rightarrow> Inl e
      | Inr g \<Rightarrow>
          (case feature_encoding_hamiltonian features wires of
             Inl e \<Rightarrow> Inl e
           | Inr g' \<Rightarrow> Inr (g @ g')))"

subsection \<open>The state-vector device\<close>

text \<open>
  Modelled from the spec: the state simulator, PennyLane's \<^verbatim>\<open>default.qubit\<close> device with
  the operations \<^verbatim>\<open>RX\<close>, \<^verbatim>\<open>RY\<close>, \<^verbatim>\<open>RZ\<close>, \<^verbatim>\<open>CNOT\<close>, \<^verbatim>\<open>Hadamard\<close>, \<^verbatim>\<open>CSWAP\<close> and the
  measurement \<^verbatim>\<open>expval(PauliZ)\<close>, is a library outside the notebook. The specification
  has it apply the queued operations in order to the all-zero state of the register and
  return the expectation value of a single-qubit observable.

  \<^verbatim>\<open>dev = qml.device("default.qubit", wires=n_qubits)\<close> keeps one complex amplitude per
  computational basis state. A basis state is the list of the wires' bits (wire \<open>0\<close>
  first), and a state vector maps each basis state to its amplitude. The operations act
  by their matrices in PennyLane's conventions:
  \<^item> \<open>RX(\<phi>) = [[cos(\<phi>/2), -i sin(\<phi>/2)], [-i sin(\<phi>/2), cos(\<phi>/2)]]\<close>,
  \<^item> \<open>RY(\<phi>) = [[cos(\<phi>/2), -sin(\<phi>/2)], [sin(\<phi>/2), cos(\<phi>/2)]]\<close>,
  \<^item> \<open>RZ(\<phi>) = diag(exp(-i\<phi>/2), exp(i\<phi>/2))\<close>,
  \<^item> \<open>Hadamard = [[1, 1], [1, -1]] / sqrt 2\<close>,
  \<^item> \<open>CNOT\<close> flips the target where the control is set, \<open>CSWAP\<close> exchanges its two targets
    where the control is set.
\<close>

type_synonym state = "bool list \<Rightarrow> complex"

fun basis :: "nat \<Rightarrow> bool list list" where
  "basis 0 = [[]]"
| "basis (Suc n) = map ((#) False) (basis n) @ map ((#) True) (basis n)"

definition zero_state :: state where
  "zero_state = (\<lambda>s. if list_all Not s then 1 else 0)"

definition single_qubit ::
  "complex \<Rightarrow> complex \<Rightarrow> complex \<Rightarrow> complex \<Rightarrow> nat \<Rightarrow> state \<Rightarrow> state" where
  "single_qubit u00 u01 u10 u11 w st =
     (\<lambda>s. (if s ! w then u10 else u00) * st (s[w := False])
         + (if s ! w then u11 else u01) * st (s[w := True]))"

fun apply_gate :: "gate \<Rightarrow> state \<Rightarrow> state" where
  "apply_gate (RX a w) st =
     single_qubit (complex_of_real (cos (a / 2))) (- \<i> * complex_of_real (sin (a / 2)))
                  (- \<i> * complex_of_real (sin (a / 2))) (complex_of_real (cos (a / 2))) w st"
| "apply_gate (RY a w) st =
     single_qubit (complex_of_real (cos (a / 2))) (- complex_of_real (sin (a / 2)))
                  (complex_of_real (sin (a / 2))) (complex_of_real (cos (a / 2))) w st"
| "apply_gate (RZ a w) st = single_qubit (cis (- a / 2)) 0 0 (cis (a / 2)) w st"
| "apply_gate (Hadamard w) st =
     single_qubit (complex_of_real (1 / sqrt 2)) (complex_of_real (1 / sqrt 2))
                  (complex_of_real (1 / sqrt 2)) (- complex_of_real (1 / sqrt 2)) w st"
| "apply_gate (CNOT c t) st = (\<lambda>s. st (if s ! c then s[t := \<not> s ! t] else s))"
| "apply_gate (CSWAP c a b) st = (\<lambda>s. st (if s ! c then s[a := s ! b, b := s ! a] else s))"

fun run :: "gate list \<Rightarrow> state \<Rightarrow> state" where
  "run [] st = st"
| "run (g # gs) st = run gs (apply_gate g st)"

text \<open>
  \<^verbatim>\<open>qml.expval(qml.PauliZ(w))\<close>: the probability of each basis state weighted by the
  eigenvalue \<open>+1\<close> (bit clear) or \<open>-1\<close> (bit set) of \<open>Z\<close> on wire \<open>w\<close>.
\<close>

definition expval_PauliZ :: "nat \<Rightarrow> nat \<Rightarrow> state \<Rightarrow> real" where
  "expval_PauliZ n w st =
     sum_list (map (\<lambda>s. (if s ! w then - 1 else 1) * (cmod (st s))\<^sup>2) (basis n))"

subsection \<open>SWAP test, overlaps and cost\<close>

definition n_features :: nat where
  "n_features = 2"

definition n_qubits :: nat where
  "n_qubits = 2 * n_features + 1"

text \<open>
  \<^verbatim>\<open>
  @qml.qnode(dev)
  def swap_test(q_weights, x1, x2):
      QAOAEmbedding(features=x1, weights=q_weights, wires=[1, 2])
      QAOAEmbedding(features=x2, weights=q_weights, wires=[3, 4])
      qml.Hadamard(wires=0)
      for k in range(n_features):
          qml.CSWAP(wires=[0, k + 1, 2 + k + 1])
      qml.Hadamard(wires=0)
      return qml.expval(qml.PauliZ(0))
  \<close>
\<close>

definition swap_ops :: "gate list" where
  "swap_ops = [Hadamard 0] @ map (\<lambda>k. CSWAP 0 (k + 1) (2 + k + 1)) [0..<n_features] @ [Hadamard 0]"

definition swap_test :: "matrix \<Rightarrow> vec \<Rightarrow> vec \<Rightarrow> py_error + real" where
  "swap_test q_weights x1 x2 =
     (case QAOAEmbedding x1 q_weights [1, 2] of
        Inl e \<Rightarrow> Inl e
      | Inr g1 \<Rightarrow>
          (case QAOAEmbedding x2 q_weights [3, 4] of
             Inl e \<Rightarrow> Inl e
           | Inr g2 \<Rightarrow> Inr (expval_PauliZ n_qubits 0 (run (g1 @ g2 @ swap_ops) zero_state))))"

text \<open>
  \<^verbatim>\<open>
  def overlaps(weights, X1=None, X2=None):
      linear_layer = weights[0]
      q_weights = weights[1]
      overlap = 0
      for x1 in X1:
          for x2 in X2:
              w_x1 = linear_layer @ x1
              w_x2 = linear_layer @ x2
              overlap += swap_test(q_weights, w_x1, w_x2)
      mean_overlap = overlap / (len(X1) * len(X2))
      return mean_overlap
  \<close>
  \<open>overlap_pair\<close> is the body of the inner loop for one pair \<open>(x1, x2)\<close>; the two loops
  thread the accumulator \<^verbatim>\<open>overlap\<close>. When a list is empty the accumulator is still the
  integer \<open>0\<close> and the divisor is the integer \<open>0\<close>, so Python raises
  \<^verbatim>\<open>ZeroDivisionError\<close>.
\<close>

definition overlap_pair :: "param_bundle \<Rightarrow> vec \<Rightarrow> vec \<Rightarrow> py_error + real" where
  "overlap_pair weights x1 x2 =
     (case matvec (fst weights) x1 of
        Inl e \<Rightarrow> Inl e
      | Inr w_x1 \<Rightarrow>
          (case matvec (fst weights) x2 of
             Inl e \<Rightarrow> Inl e
           | Inr w_x2 \<Rightarrow> swap_test (snd weights) w_x1 w_x2))"

fun overlaps_inner :: "param_bundle \<Rightarrow> vec \<Rightarrow> vec list \<Rightarrow> real \<Rightarrow> py_error + real" where
  "overlaps_inner weights x1 [] overlap = Inr overlap"
| "overlaps_inner weights x1 (x2 # X2) overlap =
     (case overlap_pair weights x1 x2 of
        Inl e \<Rightarrow> Inl e
      | Inr v \<Rightarrow> overlaps_inner weights x1 X2 (overlap + v))"

fun overlaps_outer :: "param_bundle \<Rightarrow> vec list \<Rightarrow> vec list \<Rightarrow> real \<Rightarrow> py_error + real" where
  "overlaps_outer weights [] X2 overlap = Inr overlap"
| "overlaps_outer weights (x1 # X1) X2 overlap =
     (case overlaps_inner weights x1 X2 overlap of
        Inl e \<Rightarrow> Inl e
      | Inr overlap' \<Rightarrow> overlaps_outer weights X1 X2 overlap')"

definition overlaps :: "param_bundle \<Rightarrow> vec list \<Rightarrow> vec list \<Rightarrow> py_error + real" where
  "overlaps weights X1 X2 =
     (case overlaps_outer weights X1 X2 0 of
        Inl e \<Rightarrow> Inl e
      | Inr overlap \<Rightarrow>
          (if length X1 * length X2 = 0 then Inl ZeroDivisionError
           else Inr (overlap / real (length X1 * length X2))))"

text \<open>
  \<^verbatim>\<open>
  def cost(weights, A=None, B=None):
      aa = overlaps(weights, X1=A, X2=A)
      bb = overlaps(weights, X1=B, X2=B)
      ab = overlaps(weights, X1=A, X2=B)
      d_hs = -2 * ab + (aa + bb)
      return 1 - 0.5 * d_hs
  \<close>
\<close>

definition cost :: "param_bundle \<Rightarrow> vec list \<Rightarrow> vec list \<Rightarrow> py_error + real" where
  "cost weights A B =
     (case overlaps weights A A of
        Inl e \<Rightarrow> Inl e
      | Inr aa \<Rightarrow>
          (case overlaps weights B B of
             Inl e \<Rightarrow> Inl e
           | Inr bb \<Rightarrow>
               (case overlaps weights A B of
                  Inl e \<Rightarrow> Inl e
                | Inr ab \<Rightarrow> Inr (1 - 0.5 * (- 2 * ab + (aa + bb))))))"

subsection \<open>The classifier and its metrics\<close>

text \<open>
  The \<^verbatim>\<open>predict\<close> cell reads the notebook's global arrays and the trained parameters;
  they are the fields of \<open>globals\<close>. \<^verbatim>\<open>A_val[i]\<close> is Python indexing by an integer: a
  negative index counts from the end, an index out of range raises \<^verbatim>\<open>IndexError\<close>.
\<close>

record globals =
  X :: "vec list"
  Y :: "real list"
  A_val :: "vec list"
  B_val :: "vec list"
  pars :: param_bundle

definition item :: "'a list \<Rightarrow> int \<Rightarrow> py_error + 'a" where
  "item xs i =
     (if 0 \<le> i \<and> i < int (length xs) then Inr (xs ! nat i)
      else if i < 0 \<and> - int (length xs) \<le> i then Inr (xs ! nat (int (length xs) + i))
      else Inl IndexError)"

text \<open>
  \<^verbatim>\<open>np.random.choice(n)\<close> returns one index of \<open>range(n)\<close> and advances NumPy's global
  generator; it raises \<^verbatim>\<open>ValueError\<close> for \<open>n = 0\<close>. The generator is modelled by the
  sequence of its future raw outputs, each reduced into the range, so every sequence of
  indices can be drawn.
\<close>

type_synonym rng = "nat \<Rightarrow> nat"

definition random_choice :: "rng \<Rightarrow> nat \<Rightarrow> py_error + nat \<times> rng" where
  "random_choice g n =
     (if n = 0 then Inl ValueError else Inr (g 0 mod n, \<lambda>k. g (Suc k)))"

text \<open>
  \<^verbatim>\<open>
  def predict(n_samples, pred_low, pred_high, choice):
      truepos = 0
      falseneg = 0
      falsepos = 0
      trueneg = 0
      for i in range(pred_low, pred_high):
          pred = ""
          if choice == 0:
              x_new = A_val[i]  # Bee
          else:
              x_new = B_val[i]  # Ant
          prediction = 0
          for s in range(n_samples):
              # select a random sample from the training set
              sample_index = np.random.choice(len(X))
              x = X[sample_index]
              y = Y[sample_index]
              # compute the overlap between training sample and new input
              overlap = overlaps(pars, X1=[x], X2=[x_new])
              # add the label weighed by the overlap to the prediction
              prediction += y * overlap
          # normalize prediction
          prediction = prediction / n_samples
          if prediction < 0:
              pred = "Bee"
              if choice == 0:
                  truepos += 1
              else:
                  falsepos += 1
          else:
              pred = "Ant"
              if choice == 0:
                  falseneg += 1
              else:
                  trueneg += 1
      return truepos, falseneg, falsepos, trueneg
  \<close>
  The class of the bees is \<^verbatim>\<open>A = X[Y == -1]\<close> and the class of the ants \<^verbatim>\<open>B = X[Y == 1]\<close>.
  \<open>sample_loop\<close> is the loop over \<^verbatim>\<open>s\<close> with its remaining number of rounds,
  \<open>predict_score\<close> adds the normalisation (with \<^verbatim>\<open>n_samples == 0\<close> the accumulator is
  still the integer \<open>0\<close> and Python raises \<^verbatim>\<open>ZeroDivisionError\<close>), \<open>tally_step\<close> is the
  final \<^verbatim>\<open>if\<close> of the loop body and \<open>predict_loop\<close> the loop over \<^verbatim>\<open>i\<close>.
\<close>

type_synonym tally = "int \<times> int \<times> int \<times> int"

fun sample_loop :: "globals \<Rightarrow> vec \<Rightarrow> nat \<Rightarrow> real \<Rightarrow> rng \<Rightarrow> py_error + real \<times> rng" where
  "sample_loop e x_new 0 prediction g = Inr (prediction, g)"
| "sample_loop e x_new (Suc k) prediction g =
     (case random_choice g (length (X e)) of
        Inl err \<Rightarrow> Inl err
      | Inr (sample_index, g') \<Rightarrow>
          (case item (X e) (int sample_index) of
             Inl err \<Rightarrow> Inl err
           | Inr x \<Rightarrow>
               (case item (Y e) (int sample_index) of
                  Inl err \<Rightarrow> Inl err
                | Inr y \<Rightarrow>
                    (case overlaps (pars e) [x] [x_new] of
                       Inl err \<Rightarrow> Inl err
                     | Inr overlap \<Rightarrow> sample_loop e x_new k (prediction + y * overlap) g'))))"

definition predict_score :: "globals \<Rightarrow> int \<Rightarrow> vec \<Rightarrow> rng \<Rightarrow> py_error + real \<times> rng" where
  "predict_score e n_samples x_new g =
     (case sample_loop e x_new (nat n_samples) 0 g of
        Inl err \<Rightarrow> Inl err
      | Inr (prediction, g') \<Rightarrow>
          (if n_samples = 0 then Inl ZeroDivisionError
           else Inr (prediction / real_of_int n_samples, g')))"

fun tally_step :: "int \<Rightarrow> real \<Rightarrow> tally \<Rightarrow> string \<times> tally" where
  "tally_step choice prediction (truepos, falseneg, falsepos, trueneg) =
     (if prediction < 0
      then (''Bee'',
            if choice = 0 then (truepos + 1, falseneg, falsepos, trueneg)
            else (truepos, falseneg, falsepos + 1, trueneg))
      else (''Ant'',
            if choice = 0 then (truepos, falseneg + 1, falsepos, trueneg)
            else (truepos, falseneg, falsepos, trueneg + 1)))"

fun predict_loop ::
  "globals \<Rightarrow> int \<Rightarrow> int \<Rightarrow> int list \<Rightarrow> tally \<Rightarrow> rng \<Rightarrow> py_error + tally \<times> rng" where
  "predict_loop e n_samples choice [] t g = Inr (t, g)"
| "predict_loop e n_samples choice (i # is) t g =
     (case item (if choice = 0 then A_val e else B_val e) i of
        Inl err \<Rightarrow> Inl err
      | Inr x_new \<Rightarrow>
          (case predict_score e n_samples x_new g of
             Inl err \<Rightarrow> Inl err
           | Inr (prediction, g') \<Rightarrow>
               predict_loop e n_samples choice is (snd (tally_step choice prediction t)) g'))"

definition predict ::
  "globals \<Rightarrow> int \<Rightarrow> int \<Rightarrow> int \<Rightarrow> int \<Rightarrow> rng \<Rightarrow> py_error + tally \<times> rng" where
  "predict e n_samples pred_low pred_high choice g =
     predict_loop e n_samples choice [pred_low..pred_high - 1] (0, 0, 0, 0) g"

text \<open>
  \<^verbatim>\<open>
  totals = [x + y for x, y in zip(predict(20, 0, len(A_val), 0), predict(20, 0, len(B_val), 1))]
  precision = totals[0] / (totals[0] + totals[2])
  recall = totals[0] / (totals[0] + totals[1])
  accuracy = (totals[0] + totals[3]) / (totals[0] + totals[1] + totals[2] + totals[3])
  specificity = totals[3] / (totals[3] + totals[2])
  f1 = (2 * precision * recall) / (precision + recall)
  \<close>
  The statements run in this order, and each division raises \<^verbatim>\<open>ZeroDivisionError\<close> on a
  zero divisor (integers in the first four, floats in the last).
\<close>

definition totals :: "tally \<Rightarrow> tally \<Rightarrow> tally" where
  "totals a b =
     (case a of (a0, a1, a2, a3) \<Rightarrow> case b of (b0, b1, b2, b3) \<Rightarrow>
        (a0 + b0, a1 + b1, a2 + b2, a3 + b3))"

definition divide_int :: "int \<Rightarrow> int \<Rightarrow> py_error + real" where
  "divide_int a b = (if b = 0 then Inl ZeroDivisionError else Inr (real_of_int a / real_of_int b))"

definition divide_float :: "real \<Rightarrow> real \<Rightarrow> py_error + real" where
  "divide_float a b = (if b = 0 then Inl ZeroDivisionError else Inr (a / b))"

definition metrics :: "tally \<Rightarrow> py_error + real \<times> real \<times> real \<times> real \<times> real" where
  "metrics t =
     (case t of (t0, t1, t2, t3) \<Rightarrow>
        (case divide_int t0 (t0 + t2) of
           Inl err \<Rightarrow> Inl err
         | Inr precision \<Rightarrow>
             (case divide_int t0 (t0 + t1) of
                Inl err \<Rightarrow> Inl err
              | Inr recall \<Rightarrow>
                  (case divide_int (t0 + t3) (t0 + t1 + t2 + t3) of
                     Inl err \<Rightarrow> Inl err
                   | Inr accuracy \<Rightarrow>
                       (case divide_int t3 (t3 + t2) of
                          Inl err \<Rightarrow> Inl err
                        | Inr specificity \<Rightarrow>
                            (case divide_float (2 * precision * recall) (precision + recall) of
                               Inl err \<Rightarrow> Inl err
                             | Inr f1 \<Rightarrow> Inr (precision, recall, accuracy, specificity, f1)))))))"

text \<open>
  The cell as a whole: the two calls of \<^verbatim>\<open>predict\<close> in the order of the \<^verbatim>\<open>zip\<close>, the totals
  and the metrics.
\<close>

definition report ::
  "globals \<Rightarrow> rng \<Rightarrow> py_error + tally \<times> (real \<times> real \<times> real \<times> real \<times> real)" where
  "report e g =
     (case predict e 20 0 (int (length (A_val e))) 0 g of
        Inl err \<Rightarrow> Inl err
      | Inr (bees, g1) \<Rightarrow>
          (case predict e 20 0 (int (length (B_val e))) 1 g1 of
             Inl err \<Rightarrow> Inl err
           | Inr (ants, g2) \<Rightarrow>
               (case metrics (totals bees ants) of
                  Inl err \<Rightarrow> Inl err
                | Inr m \<Rightarrow> Inr (totals bees ants, m))))"

section \<open>Auxiliary notions for the proofs\<close>

subsection \<open>The operation sequence of the specification\<close>

text \<open>
  The sequence the specification describes for a pair of positions \<open>a\<close>, \<open>b\<close>: a feature
  rotation on each position; per layer the feature rotations, the coupling of the two
  positions by the layer's first weight (\<^verbatim>\<open>CNOT\<close>, \<^verbatim>\<open>RZ\<close>, \<^verbatim>\<open>CNOT\<close>) and a rotation of each
  position by the layer's remaining weights; and the feature rotations once more at the
  end.
\<close>

definition feature_rotations :: "vec \<Rightarrow> nat \<Rightarrow> nat \<Rightarrow> gate list" where
  "feature_rotations x a b = [RX (x ! 0) a, RX (x ! 1) b]"

definition ansatz_layer :: "vec \<Rightarrow> nat \<Rightarrow> nat \<Rightarrow> real list \<Rightarrow> gate list" where
  "ansatz_layer x a b row =
     feature_rotations x a b @ [CNOT b a, RZ (row ! 0) a, CNOT b a, RY (row ! 1) a, RY (row ! 2) b]"

definition ansatz_sequence :: "vec \<Rightarrow> matrix \<Rightarrow> nat \<Rightarrow> nat \<Rightarrow> gate list" where
  "ansatz_sequence x q a b = concat (map (ansatz_layer x a b) q) @ feature_rotations x a b"

fun is_RX :: "gate \<Rightarrow> bool" where
  "is_RX (RX a w) = True"
| "is_RX g = False"

fun is_RY :: "gate \<Rightarrow> bool" where
  "is_RY (RY a w) = True"
| "is_RY g = False"

fun is_RZ :: "gate \<Rightarrow> bool" where
  "is_RZ (RZ a w) = True"
| "is_RZ g = False"

fun is_CNOT :: "gate \<Rightarrow> bool" where
  "is_CNOT (CNOT c t) = True"
| "is_CNOT g = False"

subsection \<open>Shapes\<close>

text \<open>
  \<open>shapes_ok x q\<close>: the intermediate vector \<open>x\<close> has an entry for each of the two wires
  and every row of the quantum weights has its three entries. \<open>well_shaped w n\<close>: the
  classical matrix has at least two rows, all of length \<open>n\<close> (it maps a feature vector of
  length \<open>n\<close> to the intermediate values), and the quantum weights have three columns or
  more. \<open>all_length n xs\<close>: every feature vector of \<open>xs\<close> has length \<open>n\<close>.
\<close>

definition shapes_ok :: "vec \<Rightarrow> matrix \<Rightarrow> bool" where
  "shapes_ok x q = (2 \<le> length x \<and> list_all (\<lambda>r. 3 \<le> length r) q)"

definition well_shaped :: "param_bundle \<Rightarrow> nat \<Rightarrow> bool" where
  "well_shaped w n =
     (2 \<le> length (fst w) \<and> list_all (\<lambda>r. length r = n) (fst w)
      \<and> list_all (\<lambda>r. 3 \<le> length r) (snd w))"

definition all_length :: "nat \<Rightarrow> vec list \<Rightarrow> bool" where
  "all_length n xs = list_all (\<lambda>x. length x = n) xs"

subsection \<open>States on a pair of wires\<close>

text \<open>
  Two states agree on a register of \<open>n\<close> wires when they give every basis state of
  length \<open>n\<close> the same amplitude. The operations of the feature map act on two wires
  only: \<open>local_gate\<close> holds for the operations of the feature map on wires \<open>0\<close> and \<open>1\<close>,
  \<open>relabel a b\<close> moves them to the wires \<open>a\<close> and \<open>b\<close>, and \<open>on_pair a b f g\<close> is the state
  whose amplitude is the amplitude of \<open>f\<close> at the bits of wires \<open>a\<close>, \<open>b\<close> times a factor \<open>g\<close>
  that does not depend on these two wires (\<open>indep\<close>).
\<close>

definition agree :: "nat \<Rightarrow> state \<Rightarrow> state \<Rightarrow> bool" where
  "agree n st st' = (\<forall>s. length s = n \<longrightarrow> st s = st' s)"

fun local_gate :: "gate \<Rightarrow> bool" where
  "local_gate (RX a w) = (w < 2)"
| "local_gate (RY a w) = (w < 2)"
| "local_gate (RZ a w) = (w < 2)"
| "local_gate (CNOT c t) = (c < 2 \<and> t < 2 \<and> c \<noteq> t)"
| "local_gate (Hadamard w) = False"
| "local_gate (CSWAP c a b) = False"

definition place :: "nat \<Rightarrow> nat \<Rightarrow> nat \<Rightarrow> nat" where
  "place a b w = (if w = 0 then a else b)"

fun relabel :: "nat \<Rightarrow> nat \<Rightarrow> gate \<Rightarrow> gate" where
  "relabel a b (RX t w) = RX t (place a b w)"
| "relabel a b (RY t w) = RY t (place a b w)"
| "relabel a b (RZ t w) = RZ t (place a b w)"
| "relabel a b (CNOT c t) = CNOT (place a b c) (place a b t)"
| "relabel a b (Hadamard w) = Hadamard (place a b w)"
| "relabel a b (CSWAP c u v) = CSWAP (place a b c) (place a b u) (place a b v)"

definition on_pair :: "nat \<Rightarrow> nat \<Rightarrow> state \<Rightarrow> state \<Rightarrow> state" where
  "on_pair a b f g = (\<lambda>s. f [s ! a, s ! b] * g s)"

definition indep :: "state \<Rightarrow> nat \<Rightarrow> bool" where
  "indep g w = (\<forall>s v. g (s[w := v]) = g s)"

text \<open>
  \<open>embed2 x q\<close> is the embedded state of \<open>x\<close> on a register of its own two wires,
  \<open>norm2\<close> the squared norm of such a state, \<open>product_state f1 f2\<close> the state of the five
  wires with the ancilla clear, \<open>f1\<close> on wires \<open>1, 2\<close> and \<open>f2\<close> on wires \<open>3, 4\<close>, and
  \<open>fidelity q x1 x2\<close> the squared modulus of the inner product of the two embedded
  states.
\<close>

definition embed2 :: "vec \<Rightarrow> matrix \<Rightarrow> state" where
  "embed2 x q = run (ansatz_sequence x q 0 1) zero_state"

definition norm2 :: "state \<Rightarrow> real" where
  "norm2 f = sum_list (map (\<lambda>p. (cmod (f p))\<^sup>2) (basis 2))"

definition product_state :: "state \<Rightarrow> state \<Rightarrow> state" where
  "product_state f1 f2 = (\<lambda>s. f2 [s ! 3, s ! 4] * (f1 [s ! 1, s ! 2] * (if s ! 0 then 0 else 1)))"

definition fidelity :: "matrix \<Rightarrow> vec \<Rightarrow> vec \<Rightarrow> real" where
  "fidelity q x1 x2 =
     (cmod (sum_list (map (\<lambda>p. embed2 x1 q p * cnj (embed2 x2 q p)) (basis 2))))\<^sup>2"

text \<open>\<open>project w x\<close> is the intermediate vector \<^verbatim>\<open>linear_layer @ x\<close> when the shapes fit.\<close>

definition project :: "param_bundle \<Rightarrow> vec \<Rightarrow> vec" where
  "project w x = map (\<lambda>r. dot r x) (fst w)"

subsection \<open>Example inputs\<close>

text \<open>
  \<open>example_weights\<close> has the notebook's shapes: a classical matrix of shape \<open>(2, 4)\<close> and
  quantum weights of shape \<open>(4, 3)\<close>. \<open>small_weights\<close> has no quantum layer and maps a
  single feature \<open>t\<close> to the intermediate vector \<open>(t, 0)\<close>.
\<close>

definition example_weights :: param_bundle where
  "example_weights = ([[1, 0, 0, 0], [0, 1, 0, 0]], [[0, 0, 0], [0, 0, 0], [0, 0, 0], [0, 0, 0]])"

definition example_A :: "vec list" where
  "example_A = [[0, 0, 0, 0], [1, 0, 0, 0]]"

definition example_B :: "vec list" where
  "example_B = [[0, 1, 0, 0]]"

definition small_weights :: param_bundle where
  "small_weights = ([[1], [0]], [])"

text \<open>
  \<open>small_globals\<close>: one training sample \<open>[0]\<close> with label \<open>-1\<close>, one class-A query \<open>[0]\<close>
  and one class-B query \<open>[pi]\<close>, with \<open>small_weights\<close>. \<open>empty_globals\<close> holds no data.
  \<open>zero_rng\<close> is the generator whose raw outputs are all \<open>0\<close>.
\<close>

definition empty_globals :: globals where
  "empty_globals = \<lparr>X = [], Y = [], A_val = [], B_val = [], pars = ([], [])\<rparr>"

definition small_globals :: globals where
  "small_globals = \<lparr>X = [[0]], Y = [- 1], A_val = [[0]], B_val = [[pi]], pars = small_weights\<rparr>"

text \<open>
  \<open>ants_only_globals\<close>: as \<open>small_globals\<close>, but the one training sample has label \<open>+1\<close>.
\<close>

definition ants_only_globals :: globals where
  "ants_only_globals = \<lparr>X = [[0]], Y = [1], A_val = [[0]], B_val = [[pi]], pars = small_weights\<rparr>"

definition zero_rng :: rng where
  "zero_rng = (\<lambda>k. 0)"

text \<open>
  \<open>pool_globals\<close>: a training pool of a bee \<open>[0]\<close> (label \<open>-1\<close>) and an ant \<open>[pi]\<close> (label
  \<open>+1\<close>), one class-A query and two class-B queries. \<open>count_rng\<close> is the generator whose raw
  outputs are \<open>0, 1, 2, ...\<close> (it draws the two samples in turn), \<open>one_rng\<close> the generator
  whose raw outputs are all \<open>1\<close>.
\<close>

definition pool_globals :: globals where
  "pool_globals =
     \<lparr>X = [[0], [pi]], Y = [- 1, 1], A_val = [[0]], B_val = [[pi], [0]], pars = small_weights\<rparr>"

definition count_rng :: rng where
  "count_rng = (\<lambda>k. k)"

definition one_rng :: rng where
  "one_rng = (\<lambda>k. 1)"

section \<open>Lemmas\<close>

subsection \<open>The operations queued by the embedding\<close>

text \<open>
  On two distinct wires \<open>QAOAEmbedding\<close> queues the sequence of the specification when
  the shapes fit, and raises \<^verbatim>\<open>IndexError\<close> otherwise.
\<close>

lemma feature_encoding_pair:
  "feature_encoding_hamiltonian x [a, b] =
     (if 2 \<le> length x then Inr (feature_rotations x a b) else Inl IndexError)"
  by (auto simp: feature_encoding_hamiltonian_def feature_rotations_def)

lemma ising_pair:
  "a \<noteq> b \<Longrightarrow> ising_hamiltonian q [a, b] l =
     (if l < length q \<and> 3 \<le> length (q ! l)
      then Inr [CNOT b a, RZ (q ! l ! 0) a, CNOT b a, RY (q ! l ! 1) a, RY (q ! l ! 2) b]
      else Inl IndexError)"
  by (auto simp: ising_hamiltonian_def weight_at_def numeral_2_eq_2)

lemma QAOA_layers_pair:
  "a \<noteq> b \<Longrightarrow> list_all (\<lambda>l. l < length q) ls \<Longrightarrow> QAOA_layers x q [a, b] ls =
     (if ls = [] \<or> (2 \<le> length x \<and> list_all (\<lambda>l. 3 \<le> length (q ! l)) ls)
      then Inr (concat (map (\<lambda>l. ansatz_layer x a b (q ! l)) ls))
      else Inl IndexError)"
  by (induction ls) (auto simp: feature_encoding_pair ising_pair ansatz_layer_def)

lemma list_all_upt_nth: "list_all (\<lambda>l. P (q ! l)) [0..<length q] = list_all P q"
  by (auto simp: list_all_iff all_set_conv_all_nth)

lemma QAOAEmbedding_pair:
  assumes "a \<noteq> b"
  shows "QAOAEmbedding x q [a, b] =
     (if shapes_ok x q then Inr (ansatz_sequence x q a b) else Inl IndexError)"
proof -
  have all: "list_all (\<lambda>l. l < length q) [0..<length q]"
    by (simp add: list_all_iff)
  have m: "map (\<lambda>l. ansatz_layer x a b (q ! l)) [0..<length q] = map (ansatz_layer x a b) q"
    by (rule nth_equalityI) simp_all
  show ?thesis
    unfolding QAOAEmbedding_def QAOA_layers_pair [OF assms all] feature_encoding_pair
    by (auto simp: shapes_ok_def ansatz_sequence_def m list_all_upt_nth [of "\<lambda>r. 3 \<le> length r" q])
qed

subsection \<open>Complex arithmetic\<close>

text \<open>
  The interference term of the SWAP test, the rotations as isometries of the plane, and
  sums over lists.
\<close>

lemma cmod2_add: "(cmod (a + b))\<^sup>2 = (cmod a)\<^sup>2 + (cmod b)\<^sup>2 + 2 * Re (a * cnj b)"
  unfolding cmod_power2 by (simp add: power2_eq_square algebra_simps)

lemma cmod2_diff: "(cmod (a - b))\<^sup>2 = (cmod a)\<^sup>2 + (cmod b)\<^sup>2 - 2 * Re (a * cnj b)"
  unfolding cmod_power2 by (simp add: power2_eq_square algebra_simps)

lemma interference:
  "(cmod ((a + b) / 2))\<^sup>2 - (cmod ((a - b) / 2))\<^sup>2 = Re (a * cnj b)"
  unfolding norm_divide power_divide cmod2_add cmod2_diff by (simp add: field_simps)

lemma rot_x_norm:
  fixes x y :: complex and c s :: real
  assumes "c\<^sup>2 + s\<^sup>2 = 1"
  shows "(cmod (complex_of_real c * x + (- \<i> * complex_of_real s) * y))\<^sup>2
       + (cmod ((- \<i> * complex_of_real s) * x + complex_of_real c * y))\<^sup>2
       = (cmod x)\<^sup>2 + (cmod y)\<^sup>2"
proof -
  have "(cmod (complex_of_real c * x + (- \<i> * complex_of_real s) * y))\<^sup>2
       + (cmod ((- \<i> * complex_of_real s) * x + complex_of_real c * y))\<^sup>2
       = (c\<^sup>2 + s\<^sup>2) * ((cmod x)\<^sup>2 + (cmod y)\<^sup>2)"
    unfolding cmod_power2 by (simp add: power2_eq_square algebra_simps)
  then show ?thesis using assms by simp
qed

lemma rot_y_norm:
  fixes x y :: complex and c s :: real
  assumes "c\<^sup>2 + s\<^sup>2 = 1"
  shows "(cmod (complex_of_real c * x + (- complex_of_real s) * y))\<^sup>2
       + (cmod (complex_of_real s * x + complex_of_real c * y))\<^sup>2
       = (cmod x)\<^sup>2 + (cmod y)\<^sup>2"
proof -
  have "(cmod (complex_of_real c * x + (- complex_of_real s) * y))\<^sup>2
       + (cmod (complex_of_real s * x + complex_of_real c * y))\<^sup>2
       = (c\<^sup>2 + s\<^sup>2) * ((cmod x)\<^sup>2 + (cmod y)\<^sup>2)"
    unfolding cmod_power2 by (simp add: power2_eq_square algebra_simps)
  then show ?thesis using assms by simp
qed

lemma Re_sum_list: "Re (sum_list zs) = sum_list (map Re zs)"
  by (induction zs) simp_all

lemma cnj_sum_list: "cnj (sum_list zs) = sum_list (map cnj zs)"
  by (induction zs) simp_all

lemma sum_list_times:
  fixes f g :: "'a \<Rightarrow> complex"
  shows "sum_list (map f xs) * sum_list (map g ys)
       = sum_list (map (\<lambda>x. sum_list (map (\<lambda>y. f x * g y) ys)) xs)"
  by (induction xs) (simp_all add: sum_list_const_mult distrib_right)

lemma overlap_square:
  fixes f g :: "'a \<Rightarrow> complex"
  shows "sum_list (map (\<lambda>p. sum_list (map (\<lambda>q. Re (f p * g q * cnj (f q * g p))) xs)) xs)
       = (cmod (sum_list (map (\<lambda>p. f p * cnj (g p)) xs)))\<^sup>2"
proof -
  let ?z = "sum_list (map (\<lambda>p. f p * cnj (g p)) xs)"
  have "(cmod ?z)\<^sup>2 = Re (?z * cnj ?z)"
    unfolding cmod_power2 by (simp add: power2_eq_square)
  also have "?z * cnj ?z
      = sum_list (map (\<lambda>p. sum_list (map (\<lambda>q. (f p * cnj (g p)) * cnj (f q * cnj (g q))) xs)) xs)"
    by (simp add: cnj_sum_list comp_def sum_list_times)
  also have "Re \<dots> = sum_list (map (\<lambda>p. sum_list (map (\<lambda>q. Re (f p * g q * cnj (f q * g p))) xs)) xs)"
    by (simp add: Re_sum_list comp_def algebra_simps)
  finally show ?thesis by simp
qed

subsection \<open>Operations on two wires of a larger register\<close>

text \<open>
  An operation on the wires \<open>a\<close>, \<open>b\<close> acts on the factor \<open>f\<close> of \<open>on_pair a b f g\<close> as the
  same operation acts on a register of two wires, and leaves \<open>g\<close> alone.
\<close>

lemma agree_refl: "agree n st st"
  by (simp add: agree_def)

lemma agree_trans: "agree n st1 st2 \<Longrightarrow> agree n st2 st3 \<Longrightarrow> agree n st1 st3"
  by (simp add: agree_def)

lemma agree_apply_gate: "agree n st st' \<Longrightarrow> agree n (apply_gate g st) (apply_gate g st')"
  by (cases g) (simp_all add: agree_def single_qubit_def)

lemma agree_run: "agree n st st' \<Longrightarrow> agree n (run gs st) (run gs st')"
  by (induction gs arbitrary: st st') (simp_all add: agree_apply_gate)

lemma run_append: "run (gs @ hs) st = run hs (run gs st)"
  by (induction gs arbitrary: st) simp_all

lemma length_basis: "s \<in> set (basis n) \<Longrightarrow> length s = n"
  by (induction n arbitrary: s) auto

lemma agree_expval: "agree n st st' \<Longrightarrow> expval_PauliZ n w st = expval_PauliZ n w st'"
  unfolding expval_PauliZ_def
  by (rule arg_cong [where f = sum_list], rule map_cong) (simp_all add: agree_def length_basis)

lemma single_qubit_on_pair:
  assumes "a \<noteq> b" "a < n" "b < n" "indep g a" "indep g b" "w < 2"
  shows "agree n (single_qubit u00 u01 u10 u11 (place a b w) (on_pair a b f g))
                 (on_pair a b (single_qubit u00 u01 u10 u11 w f) g)"
proof -
  from \<open>w < 2\<close> have "w = 0 \<or> w = 1" by auto
  then show ?thesis
    using assms
    by (auto simp: agree_def single_qubit_def on_pair_def place_def indep_def algebra_simps)
qed

lemma gate_on_pair:
  assumes "a \<noteq> b" "a < n" "b < n" "indep g a" "indep g b" "local_gate G"
  shows "agree n (apply_gate (relabel a b G) (on_pair a b f g))
                 (on_pair a b (apply_gate G f) g)"
proof (cases G)
  case (CNOT c t)
  with assms have "(c = 0 \<and> t = 1) \<or> (c = 1 \<and> t = 0)" by auto
  then show ?thesis
    using assms CNOT
    by (auto simp: agree_def on_pair_def place_def indep_def)
qed (use assms in \<open>simp_all add: single_qubit_on_pair\<close>)

lemma run_on_pair:
  assumes "a \<noteq> b" "a < n" "b < n" "indep g a" "indep g b" "list_all local_gate gs"
  shows "agree n (run (map (relabel a b) gs) (on_pair a b f g)) (on_pair a b (run gs f) g)"
  using assms(6)
proof (induction gs arbitrary: f)
  case Nil
  show ?case by (simp add: agree_refl)
next
  case (Cons G gs)
  have "agree n (apply_gate (relabel a b G) (on_pair a b f g)) (on_pair a b (apply_gate G f) g)"
    using assms(1-5) Cons.prems by (simp add: gate_on_pair)
  then have "agree n (run (map (relabel a b) gs) (apply_gate (relabel a b G) (on_pair a b f g)))
                     (run (map (relabel a b) gs) (on_pair a b (apply_gate G f) g))"
    by (rule agree_run)
  moreover have "agree n (run (map (relabel a b) gs) (on_pair a b (apply_gate G f) g))
                         (on_pair a b (run gs (apply_gate G f)) g)"
    using Cons by simp
  ultimately show ?case
    by (simp add: agree_trans)
qed

lemma feature_rotations_relabel: "map (relabel a b) (feature_rotations x 0 1) = feature_rotations x a b"
  by (simp add: feature_rotations_def place_def)

lemma ansatz_layer_relabel: "map (relabel a b) (ansatz_layer x 0 1 r) = ansatz_layer x a b r"
  by (simp add: ansatz_layer_def feature_rotations_def place_def)

lemma ansatz_sequence_relabel: "ansatz_sequence x q a b = map (relabel a b) (ansatz_sequence x q 0 1)"
  by (simp add: ansatz_sequence_def map_concat comp_def feature_rotations_relabel ansatz_layer_relabel
           del: One_nat_def)

lemma ansatz_sequence_local: "list_all local_gate (ansatz_sequence x q 0 1)"
  by (simp add: ansatz_sequence_def ansatz_layer_def feature_rotations_def list_all_iff)

subsection \<open>The SWAP test on a product state\<close>

text \<open>
  On \<open>product_state f1 f2\<close> the Hadamard, the two controlled swaps and the second
  Hadamard give the ancilla the expectation value \<open>|\<langle>f1, f2\<rangle>|\<^sup>2\<close>.
\<close>

lemma length2E:
  assumes "length s = 2"
  obtains b0 b1 where "s = [b0, b1]"
  using assms by (auto simp: eval_nat_numeral length_Suc_conv)

lemma length5E:
  assumes "length s = 5"
  obtains b0 b1 b2 b3 b4 where "s = [b0, b1, b2, b3, b4]"
  using assms by (auto simp: eval_nat_numeral length_Suc_conv)

lemma sum_basis_append:
  fixes F :: "bool list \<Rightarrow> real"
  shows "sum_list (map F (basis (m + n)))
       = sum_list (map (\<lambda>p. sum_list (map (\<lambda>q. F (p @ q)) (basis n))) (basis m))"
  by (induction m arbitrary: F) (simp_all add: comp_def)

lemma expval_split:
  "expval_PauliZ (Suc n) 0 st
     = sum_list (map (\<lambda>t. (cmod (st (False # t)))\<^sup>2 - (cmod (st (True # t)))\<^sup>2) (basis n))"
  by (simp add: expval_PauliZ_def comp_def sum_list_subtractf sum_list_addf [symmetric])

lemma sqrt2_sq: "complex_of_real (sqrt 2) * complex_of_real (sqrt 2) = 2"
  by (simp flip: of_real_mult)

lemma swap_state:
  "run swap_ops (product_state f1 f2) [b0, b1, b2, b3, b4]
     = (f1 [b1, b2] * f2 [b3, b4] + (if b0 then - 1 else 1) * (f1 [b3, b4] * f2 [b1, b2])) / 2"
  by (simp add: swap_ops_def n_features_def single_qubit_def product_state_def eval_nat_numeral
        sqrt2_sq)

lemma swap_expval:
  "expval_PauliZ 5 0 (run swap_ops (product_state f1 f2))
     = (cmod (sum_list (map (\<lambda>p. f1 p * cnj (f2 p)) (basis 2))))\<^sup>2"
proof -
  let ?st = "run swap_ops (product_state f1 f2)"
  have pt: "(cmod (?st (False # p @ q)))\<^sup>2 - (cmod (?st (True # p @ q)))\<^sup>2
              = Re (f1 p * f2 q * cnj (f1 q * f2 p))"
    if "p \<in> set (basis 2)" "q \<in> set (basis 2)" for p q
  proof -
    from that have "length p = 2" "length q = 2"
      by (simp_all add: length_basis)
    then obtain b1 b2 b3 b4 where p: "p = [b1, b2]" and q: "q = [b3, b4]"
      by (elim length2E)
    have F: "?st [False, b1, b2, b3, b4]
               = (f1 [b1, b2] * f2 [b3, b4] + f1 [b3, b4] * f2 [b1, b2]) / 2"
      by (simp only: swap_state if_False mult_1)
    have T: "?st [True, b1, b2, b3, b4]
               = (f1 [b1, b2] * f2 [b3, b4] - f1 [b3, b4] * f2 [b1, b2]) / 2"
      by (simp only: swap_state if_True) simp
    have l: "False # p @ q = [False, b1, b2, b3, b4]" "True # p @ q = [True, b1, b2, b3, b4]"
      by (simp_all add: p q)
    show ?thesis
      unfolding l F T unfolding p q by (rule interference)
  qed
  have "expval_PauliZ 5 0 ?st
      = sum_list (map (\<lambda>t. (cmod (?st (False # t)))\<^sup>2 - (cmod (?st (True # t)))\<^sup>2) (basis (2 + 2)))"
    using expval_split [of 4 ?st] by (simp add: eval_nat_numeral)
  also have "\<dots> = sum_list (map (\<lambda>p. sum_list (map (\<lambda>q.
                 (cmod (?st (False # p @ q)))\<^sup>2 - (cmod (?st (True # p @ q)))\<^sup>2) (basis 2))) (basis 2))"
    by (rule sum_basis_append)
  also have "\<dots> = sum_list (map (\<lambda>p. sum_list (map (\<lambda>q.
                 Re (f1 p * f2 q * cnj (f1 q * f2 p))) (basis 2))) (basis 2))"
    by (intro arg_cong [where f = sum_list] map_cong refl) (simp add: pt)
  also have "\<dots> = (cmod (sum_list (map (\<lambda>p. f1 p * cnj (f2 p)) (basis 2))))\<^sup>2"
    by (rule overlap_square)
  finally show ?thesis .
qed

subsection \<open>The state after the two embeddings\<close>

text \<open>
  The two embeddings produce the product of the two embedded states, so \<open>swap_test\<close>
  returns the fidelity of the two, or raises \<^verbatim>\<open>IndexError\<close> when a shape does not fit.
\<close>

lemma zero_state_split1:
  "agree 5 zero_state
     (on_pair 1 2 zero_state (\<lambda>s. if \<not> s ! 0 \<and> \<not> s ! 3 \<and> \<not> s ! 4 then 1 else 0))"
  unfolding agree_def
proof (intro allI impI)
  fix s :: "bool list" assume "length s = 5"
  then obtain b0 b1 b2 b3 b4 where "s = [b0, b1, b2, b3, b4]"
    by (rule length5E)
  then show "zero_state s
      = on_pair 1 2 zero_state (\<lambda>s. if \<not> s ! 0 \<and> \<not> s ! 3 \<and> \<not> s ! 4 then 1 else 0) s"
    by (simp add: zero_state_def on_pair_def)
qed

lemma first_embedded:
  "agree 5 (run (ansatz_sequence x1 q 1 2) zero_state)
     (on_pair 3 4 zero_state (\<lambda>s. embed2 x1 q [s ! 1, s ! 2] * (if s ! 0 then 0 else 1)))"
proof -
  let ?g = "\<lambda>s::bool list. if \<not> s ! 0 \<and> \<not> s ! 3 \<and> \<not> s ! 4 then 1 else (0::complex)"
  have "agree 5 (run (ansatz_sequence x1 q 1 2) zero_state)
                (run (ansatz_sequence x1 q 1 2) (on_pair 1 2 zero_state ?g))"
    by (rule agree_run) (rule zero_state_split1)
  moreover have "agree 5 (run (ansatz_sequence x1 q 1 2) (on_pair 1 2 zero_state ?g))
                         (on_pair 1 2 (embed2 x1 q) ?g)"
    unfolding embed2_def ansatz_sequence_relabel [of x1 q 1 2]
    by (rule run_on_pair) (simp_all add: indep_def ansatz_sequence_local del: One_nat_def)
  moreover have "agree 5 (on_pair 1 2 (embed2 x1 q) ?g)
     (on_pair 3 4 zero_state (\<lambda>s. embed2 x1 q [s ! 1, s ! 2] * (if s ! 0 then 0 else 1)))"
    by (simp add: agree_def on_pair_def zero_state_def)
  ultimately show ?thesis
    by (blast intro: agree_trans)
qed

lemma both_embedded:
  "agree 5 (run (ansatz_sequence x1 q 1 2 @ ansatz_sequence x2 q 3 4) zero_state)
           (product_state (embed2 x1 q) (embed2 x2 q))"
proof -
  let ?g = "\<lambda>s::bool list. embed2 x1 q [s ! 1, s ! 2] * (if s ! 0 then 0 else 1)"
  have "agree 5 (run (ansatz_sequence x2 q 3 4) (run (ansatz_sequence x1 q 1 2) zero_state))
                (run (ansatz_sequence x2 q 3 4) (on_pair 3 4 zero_state ?g))"
    by (rule agree_run) (rule first_embedded)
  moreover have "agree 5 (run (ansatz_sequence x2 q 3 4) (on_pair 3 4 zero_state ?g))
                         (on_pair 3 4 (embed2 x2 q) ?g)"
    unfolding embed2_def ansatz_sequence_relabel [of x2 q 3 4]
    by (rule run_on_pair) (simp_all add: indep_def ansatz_sequence_local del: One_nat_def)
  moreover have "on_pair 3 4 (embed2 x2 q) ?g = product_state (embed2 x1 q) (embed2 x2 q)"
    by (simp add: on_pair_def product_state_def)
  ultimately show ?thesis
    by (simp add: run_append) (blast intro: agree_trans)
qed

lemma swap_test_value:
  "swap_test q x1 x2 =
     (if shapes_ok x1 q \<and> shapes_ok x2 q then Inr (fidelity q x1 x2) else Inl IndexError)"
proof (cases "shapes_ok x1 q \<and> shapes_ok x2 q")
  case True
  have "expval_PauliZ 5 0 (run (ansatz_sequence x1 q 1 2 @ ansatz_sequence x2 q 3 4 @ swap_ops) zero_state)
      = expval_PauliZ 5 0 (run swap_ops (product_state (embed2 x1 q) (embed2 x2 q)))"
    using agree_run [OF both_embedded, of swap_ops x1 q x2]
    by (simp add: run_append agree_expval flip: append_assoc)
  with True show ?thesis
    by (simp add: swap_test_def QAOAEmbedding_pair n_qubits_def n_features_def swap_expval
        fidelity_def)
next
  case False
  then show ?thesis
    by (auto simp: swap_test_def QAOAEmbedding_pair)
qed

subsection \<open>Embedded states are normalised\<close>

text \<open>
  Every operation of the feature map preserves \<open>norm2\<close>; hence the fidelity of a point
  with itself is \<open>1\<close>, and every fidelity lies between \<open>0\<close> and \<open>1\<close>.
\<close>

lemma basis_2: "basis 2 = [[False, False], [False, True], [True, False], [True, True]]"
  by (simp add: eval_nat_numeral)

lemma single_qubit_norm2:
  assumes U: "\<And>x y. (cmod (u00 * x + u01 * y))\<^sup>2 + (cmod (u10 * x + u11 * y))\<^sup>2
                     = (cmod x)\<^sup>2 + (cmod y)\<^sup>2"
    and w: "w < 2"
  shows "norm2 (single_qubit u00 u01 u10 u11 w f) = norm2 f"
proof -
  from w consider "w = 0" | "w = 1" by linarith
  then show ?thesis
  proof cases
    case 1
    show ?thesis
      using U [of "f [False, False]" "f [True, False]"] U [of "f [False, True]" "f [True, True]"]
      by (simp add: norm2_def basis_2 single_qubit_def 1)
  next
    case 2
    show ?thesis
      using U [of "f [False, False]" "f [False, True]"] U [of "f [True, False]" "f [True, True]"]
      by (simp add: norm2_def basis_2 single_qubit_def 2)
  qed
qed

lemma gate_norm2:
  assumes "local_gate G"
  shows "norm2 (apply_gate G f) = norm2 f"
proof (cases G)
  case (RX a w)
  have "norm2 (single_qubit (complex_of_real (cos (a / 2))) (- \<i> * complex_of_real (sin (a / 2)))
                  (- \<i> * complex_of_real (sin (a / 2))) (complex_of_real (cos (a / 2))) w f)
        = norm2 f"
    by (rule single_qubit_norm2 [OF rot_x_norm]) (use assms RX in simp_all)
  then show ?thesis
    using RX by simp
next
  case (RY a w)
  have "norm2 (single_qubit (complex_of_real (cos (a / 2))) (- complex_of_real (sin (a / 2)))
                  (complex_of_real (sin (a / 2))) (complex_of_real (cos (a / 2))) w f)
        = norm2 f"
    by (rule single_qubit_norm2 [OF rot_y_norm]) (use assms RY in simp_all)
  then show ?thesis
    using RY by simp
next
  case (RZ a w)
  then show ?thesis
    using assms by (simp add: single_qubit_norm2 norm_mult)
next
  case (CNOT c t)
  with assms have "(c = 0 \<and> t = 1) \<or> (c = 1 \<and> t = 0)" by auto
  then show ?thesis
    using CNOT by (auto simp: norm2_def basis_2)
qed (use assms in simp_all)

lemma run_norm2: "list_all local_gate gs \<Longrightarrow> norm2 (run gs f) = norm2 f"
  by (induction gs arbitrary: f) (simp_all add: gate_norm2)

lemma embed2_norm2: "norm2 (embed2 x q) = 1"
  by (simp add: embed2_def run_norm2 ansatz_sequence_local del: One_nat_def)
     (simp add: norm2_def basis_2 zero_state_def)

lemma mult_cnj_cmod2: "z * cnj z = complex_of_real ((cmod z)\<^sup>2)"
  by (simp add: complex_mult_cnj cmod_power2)

lemma sum_list_mult_cnj:
  "sum_list (map (\<lambda>p. f p * cnj (f p)) xs) = complex_of_real (sum_list (map (\<lambda>p. (cmod (f p))\<^sup>2) xs))"
  by (induction xs) (simp_all add: mult_cnj_cmod2)

lemma fidelity_self: "fidelity q x x = 1"
proof -
  have "sum_list (map (\<lambda>p. embed2 x q p * cnj (embed2 x q p)) (basis 2))
      = complex_of_real (norm2 (embed2 x q))"
    unfolding norm2_def by (rule sum_list_mult_cnj)
  then show ?thesis
    by (simp add: fidelity_def embed2_norm2)
qed

lemma fidelity_sym: "fidelity q x1 x2 = fidelity q x2 x1"
proof -
  have "cnj (sum_list (map (\<lambda>p. embed2 x1 q p * cnj (embed2 x2 q p)) (basis 2)))
      = sum_list (map (\<lambda>p. embed2 x2 q p * cnj (embed2 x1 q p)) (basis 2))"
    by (simp add: cnj_sum_list comp_def mult.commute)
  then have "cmod (sum_list (map (\<lambda>p. embed2 x2 q p * cnj (embed2 x1 q p)) (basis 2)))
      = cmod (sum_list (map (\<lambda>p. embed2 x1 q p * cnj (embed2 x2 q p)) (basis 2)))"
    by (metis complex_mod_cnj)
  then show ?thesis
    by (simp add: fidelity_def)
qed

lemma cmod_sum_list: "cmod (sum_list zs) \<le> sum_list (map cmod zs)"
  by (induction zs) (simp_all add: order_trans [OF norm_triangle_ineq])

lemma am_gm: "(a::real) * b \<le> (a\<^sup>2 + b\<^sup>2) / 2"
  using zero_le_power2 [of "a - b"] by (simp add: power2_diff)

lemma fidelity_bounds: "0 \<le> fidelity q x1 x2 \<and> fidelity q x1 x2 \<le> 1"
proof -
  let ?a = "embed2 x1 q" and ?b = "embed2 x2 q"
  let ?z = "sum_list (map (\<lambda>p. ?a p * cnj (?b p)) (basis 2))"
  have "cmod ?z \<le> sum_list (map cmod (map (\<lambda>p. ?a p * cnj (?b p)) (basis 2)))"
    by (rule cmod_sum_list)
  also have "\<dots> = sum_list (map (\<lambda>p. cmod (?a p) * cmod (?b p)) (basis 2))"
    by (simp add: comp_def norm_mult)
  also have "\<dots> \<le> sum_list (map (\<lambda>p. ((cmod (?a p))\<^sup>2 + (cmod (?b p))\<^sup>2) / 2) (basis 2))"
    by (rule sum_list_mono) (rule am_gm)
  also have "\<dots> = (norm2 ?a + norm2 ?b) / 2"
    by (simp add: norm2_def basis_2 add_divide_distrib)
  also have "\<dots> = 1"
    by (simp add: embed2_norm2)
  finally have "cmod ?z \<le> 1" .
  then have "(cmod ?z)\<^sup>2 \<le> 1"
    by (simp add: power_le_one)
  then show ?thesis
    by (simp add: fidelity_def)
qed

subsection \<open>The loops of overlaps\<close>

text \<open>
  The two loops add up the pairwise overlaps; the mean of values in \<open>[0, 1]\<close> lies in
  \<open>[0, 1]\<close>.
\<close>

lemma matvec_ok:
  "list_all (\<lambda>r. length r = length x) m \<Longrightarrow> matvec m x = Inr (map (\<lambda>r. dot r x) m)"
  by (simp add: matvec_def)

lemma overlap_pair_value:
  assumes "well_shaped w n" "length x1 = n" "length x2 = n"
  shows "overlap_pair w x1 x2 = Inr (fidelity (snd w) (project w x1) (project w x2))"
  using assms
  by (simp add: overlap_pair_def matvec_def well_shaped_def swap_test_value shapes_ok_def
      project_def)

lemma overlap_pair_sym: "overlap_pair w x1 x2 = overlap_pair w x2 x1"
  by (auto simp: overlap_pair_def matvec_def swap_test_value fidelity_sym split: sum.splits)

lemma overlaps_inner_sum:
  assumes "\<forall>x2\<in>set X2. overlap_pair w x1 x2 = Inr (f x1 x2)"
  shows "overlaps_inner w x1 X2 acc = Inr (acc + sum_list (map (f x1) X2))"
  using assms by (induction X2 arbitrary: acc) simp_all

lemma overlaps_outer_sum:
  assumes "\<forall>x1\<in>set X1. \<forall>x2\<in>set X2. overlap_pair w x1 x2 = Inr (f x1 x2)"
  shows "overlaps_outer w X1 X2 acc
           = Inr (acc + sum_list (map (\<lambda>x1. sum_list (map (f x1) X2)) X1))"
  using assms
proof (induction X1 arbitrary: acc)
  case Nil
  show ?case by simp
next
  case (Cons x1 X1)
  have "overlaps_inner w x1 X2 acc = Inr (acc + sum_list (map (f x1) X2))"
    by (rule overlaps_inner_sum) (use Cons.prems in simp)
  moreover have "overlaps_outer w X1 X2 (acc + sum_list (map (f x1) X2))
      = Inr (acc + sum_list (map (f x1) X2) + sum_list (map (\<lambda>x1. sum_list (map (f x1) X2)) X1))"
    by (rule Cons.IH) (use Cons.prems in simp)
  ultimately show ?case
    by (simp add: add.assoc)
qed

lemma overlaps_outer_no_inner: "overlaps_outer w X1 [] acc = Inr acc"
  by (induction X1 arbitrary: acc) simp_all

lemma overlaps_mean:
  assumes "X1 \<noteq> []" "X2 \<noteq> []"
    and "\<forall>x1\<in>set X1. \<forall>x2\<in>set X2. overlap_pair w x1 x2 = Inr (f x1 x2)"
  shows "overlaps w X1 X2
           = Inr (sum_list (map (\<lambda>x1. sum_list (map (f x1) X2)) X1) / real (length X1 * length X2))"
proof -
  have "overlaps_outer w X1 X2 0
          = Inr (0 + sum_list (map (\<lambda>x1. sum_list (map (f x1) X2)) X1))"
    by (rule overlaps_outer_sum) (rule assms(3))
  then show ?thesis
    using assms(1,2) by (simp add: overlaps_def)
qed

lemma overlaps_value:
  assumes "well_shaped w n" "all_length n X1" "all_length n X2" "X1 \<noteq> []" "X2 \<noteq> []"
  shows "overlaps w X1 X2
           = Inr (sum_list (map (\<lambda>x1. sum_list (map (\<lambda>x2.
                    fidelity (snd w) (project w x1) (project w x2)) X2)) X1)
                  / real (length X1 * length X2))"
  using assms
  by (intro overlaps_mean) (simp_all add: all_length_def list_all_iff overlap_pair_value)

lemma sum_list_bounds:
  fixes f :: "'a \<Rightarrow> real"
  assumes "\<forall>x\<in>set xs. 0 \<le> f x \<and> f x \<le> 1"
  shows "0 \<le> sum_list (map f xs) \<and> sum_list (map f xs) \<le> real (length xs)"
  using assms by (induction xs) auto

lemma double_sum_bounds:
  fixes f :: "'a \<Rightarrow> 'b \<Rightarrow> real"
  assumes "\<forall>x\<in>set xs. \<forall>y\<in>set ys. 0 \<le> f x y \<and> f x y \<le> 1"
  shows "0 \<le> sum_list (map (\<lambda>x. sum_list (map (f x) ys)) xs)
       \<and> sum_list (map (\<lambda>x. sum_list (map (f x) ys)) xs) \<le> real (length xs * length ys)"
  using assms
proof (induction xs)
  case Nil
  then show ?case by simp
next
  case (Cons x xs)
  then have "0 \<le> sum_list (map (f x) ys) \<and> sum_list (map (f x) ys) \<le> real (length ys)"
    by (intro sum_list_bounds) simp
  moreover have "0 \<le> sum_list (map (\<lambda>x. sum_list (map (f x) ys)) xs)
       \<and> sum_list (map (\<lambda>x. sum_list (map (f x) ys)) xs) \<le> real (length xs * length ys)"
    using Cons by simp
  ultimately show ?case
    by (simp add: algebra_simps)
qed

lemma mean_bounds:
  fixes f :: "'a \<Rightarrow> 'b \<Rightarrow> real"
  assumes "\<forall>x\<in>set xs. \<forall>y\<in>set ys. 0 \<le> f x y \<and> f x y \<le> 1" "xs \<noteq> []" "ys \<noteq> []"
  shows "0 \<le> sum_list (map (\<lambda>x. sum_list (map (f x) ys)) xs) / real (length xs * length ys)
       \<and> sum_list (map (\<lambda>x. sum_list (map (f x) ys)) xs) / real (length xs * length ys) \<le> 1"
proof -
  have "0 < real (length xs * length ys)"
    using assms(2,3) by simp
  then show ?thesis
    using double_sum_bounds [OF assms(1)] by (simp add: divide_le_eq)
qed

lemma example_shapes:
  "well_shaped example_weights 4" "all_length 4 example_A" "all_length 4 example_B"
  "example_A \<noteq> []" "example_B \<noteq> []"
  by (simp_all add: well_shaped_def all_length_def example_weights_def example_A_def example_B_def)

lemma overlaps_single: "overlaps w [a] [b] = overlap_pair w a b"
  by (simp add: overlaps_def split: sum.splits)

subsection \<open>A feature map without layers, evaluated\<close>

text \<open>
  Without layers the embedding is a rotation of each wire, and the overlap of \<open>[s]\<close> and
  \<open>[t]\<close> under \<open>small_weights\<close> is \<open>cos\<^sup>2 ((s - t) / 2)\<close>.
\<close>

lemma small_shapes: "well_shaped small_weights 1"
  by (simp add: well_shaped_def small_weights_def)

lemma project_small: "project small_weights [t] = [t, 0]"
  by (simp add: project_def small_weights_def dot_def)

lemma embed2_no_layers:
  "embed2 [t, 0] [] [b0, b1] =
     (if b1 then 0 else if b0 then - \<i> * complex_of_real (sin (t / 2)) else complex_of_real (cos (t / 2)))"
  by (simp add: embed2_def ansatz_sequence_def feature_rotations_def single_qubit_def zero_state_def)

lemma fidelity_no_layers:
  "fidelity [] [s, 0] [t, 0] = (cos ((s - t) / 2))\<^sup>2"
proof -
  have "sum_list (map (\<lambda>p. embed2 [s, 0] [] p * cnj (embed2 [t, 0] [] p)) (basis 2))
      = complex_of_real (cos (s / 2) * cos (t / 2) + sin (s / 2) * sin (t / 2))"
    by (simp add: basis_2 embed2_no_layers complex_eq_iff)
  also have "cos (s / 2) * cos (t / 2) + sin (s / 2) * sin (t / 2) = cos ((s - t) / 2)"
    by (simp add: cos_diff diff_divide_distrib)
  finally show ?thesis
    by (simp add: fidelity_def)
qed

lemma overlap_pair_small:
  "overlap_pair small_weights [s] [t] = Inr ((cos ((s - t) / 2))\<^sup>2)"
proof -
  have "overlap_pair small_weights [s] [t]
      = Inr (fidelity (snd small_weights) (project small_weights [s]) (project small_weights [t]))"
    by (rule overlap_pair_value [OF small_shapes]) simp_all
  also have "snd small_weights = []"
    by (simp add: small_weights_def)
  finally show ?thesis
    by (simp add: project_small fidelity_no_layers)
qed

lemma overlaps_small_orthogonal: "overlaps small_weights [[0]] [[pi]] = Inr 0"
  by (simp add: overlaps_single overlap_pair_small)

lemma cost_small: "cost small_weights [[0]] [[pi]] = Inr 0"
  by (simp add: cost_def overlaps_single overlap_pair_small)

lemma small_lists:
  "all_length 1 [[0], [pi]]" "all_length 1 [[0]]" "all_length 1 [[pi]]"
  by (simp_all add: all_length_def)

lemma overlaps_small_pairs: "overlaps small_weights [[0], [pi]] [[0]] = Inr (1 / 2)"
  by (simp add: overlaps_def overlap_pair_small)

subsection \<open>The device, evaluated\<close>

text \<open>
  A SWAP test on three wires, evaluated from the definitions of the device: the state
  \<open>RX(t)|0>\<close> on wire \<open>1\<close> against \<open>|0>\<close> on wire \<open>2\<close> gives \<open>1\<close> for \<open>t = 0\<close> and \<open>0\<close> for
  \<open>t = pi\<close>.
\<close>

lemma device_direct:
  "expval_PauliZ 3 0 (run [RX 0 1, Hadamard 0, CSWAP 0 1 2, Hadamard 0] zero_state) = 1"
  "expval_PauliZ 3 0 (run [RX pi 1, Hadamard 0, CSWAP 0 1 2, Hadamard 0] zero_state) = 0"
  by (simp_all add: expval_PauliZ_def zero_state_def single_qubit_def
      eval_nat_numeral sqrt2_sq power2_eq_square norm_mult norm_divide real_sqrt_mult_self)

subsection \<open>The coupling and the number of operations\<close>

text \<open>
  \<^verbatim>\<open>CNOT\<close>, \<^verbatim>\<open>RZ\<close>, \<^verbatim>\<open>CNOT\<close> multiply an amplitude by \<open>exp(-i t/2)\<close> where the two bits are
  equal and by \<open>exp(i t/2)\<close> where they differ: the coupling \<open>exp(-i t/2 Z Z)\<close>.
\<close>

lemma update_same: "s ! a = v \<Longrightarrow> s[a := v] = s"
  by (metis list_update_id)

lemma coupling_phase:
  assumes "a \<noteq> b" "a < length s"
  shows "run [CNOT b a, RZ t a, CNOT b a] st s
           = (if s ! a = s ! b then cis (- t / 2) else cis (t / 2)) * st s"
  using assms by (auto simp: single_qubit_def update_same)

lemma ansatz_sequence_counts:
  "length (filter is_RX (ansatz_sequence x q a b)) = 2 * (length q + 1)"
  "length (filter is_CNOT (ansatz_sequence x q a b)) = 2 * length q"
  "length (filter is_RZ (ansatz_sequence x q a b)) = length q"
  "length (filter is_RY (ansatz_sequence x q a b)) = 2 * length q"
  by (induction q) (simp_all add: ansatz_sequence_def ansatz_layer_def feature_rotations_def)

subsection \<open>The loops of predict\<close>

text \<open>
  The loop over the samples adds \<open>label * overlap\<close> for each draw; the loop over the
  queries counts each query once.
\<close>

lemma item_nat: "i < length xs \<Longrightarrow> item xs (int i) = Inr (xs ! i)"
  by (simp add: item_def)

lemma sample_loop_value:
  assumes "X e \<noteq> []" "length (Y e) = length (X e)"
    and "\<forall>i<length (X e). overlaps (pars e) [X e ! i] [x_new] = Inr (ov i)"
  shows "sample_loop e x_new k acc g
           = Inr (acc + (\<Sum>j<k. Y e ! (g j mod length (X e)) * ov (g j mod length (X e))),
                  \<lambda>j. g (j + k))"
proof (induction k arbitrary: acc g)
  case 0
  show ?case by simp
next
  case (Suc k)
  let ?n = "length (X e)"
  let ?i = "g 0 mod ?n"
  have n: "0 < ?n" using assms(1) by simp
  then have i: "?i < ?n" by simp
  have draw: "random_choice g ?n = Inr (?i, \<lambda>k. g (Suc k))"
    using n by (simp add: random_choice_def)
  have x: "item (X e) (int ?i) = Inr (X e ! ?i)"
    using i by (rule item_nat)
  have y: "item (Y e) (int ?i) = Inr (Y e ! ?i)"
    using i assms(2) by (simp add: item_nat)
  have ov: "overlaps (pars e) [X e ! ?i] [x_new] = Inr (ov ?i)"
    using assms(3) i by blast
  have "sample_loop e x_new (Suc k) acc g
      = sample_loop e x_new k (acc + Y e ! ?i * ov ?i) (\<lambda>k. g (Suc k))"
    by (simp add: draw x y ov)
  also have "\<dots> = Inr (acc + Y e ! ?i * ov ?i
                      + (\<Sum>j<k. Y e ! (g (Suc j) mod ?n) * ov (g (Suc j) mod ?n)),
                     \<lambda>j. g (Suc (j + k)))"
    by (rule Suc.IH)
  also have "acc + Y e ! ?i * ov ?i + (\<Sum>j<k. Y e ! (g (Suc j) mod ?n) * ov (g (Suc j) mod ?n))
      = acc + (\<Sum>j<Suc k. Y e ! (g j mod ?n) * ov (g j mod ?n))"
    by (subst sum.lessThan_Suc_shift) simp
  finally show ?case by simp
qed

lemma overlaps_single_value:
  assumes "well_shaped w n" "length x1 = n" "length x2 = n"
  shows "overlaps w [x1] [x2] = Inr (fidelity (snd w) (project w x1) (project w x2))"
  using assms by (simp add: overlaps_single overlap_pair_value)

lemma predict_score_value:
  assumes "X e \<noteq> []" "length (Y e) = length (X e)" "n_samples \<noteq> 0"
    and "\<forall>i<length (X e). overlaps (pars e) [X e ! i] [x_new] = Inr (ov i)"
  shows "predict_score e n_samples x_new g
           = Inr ((\<Sum>j<nat n_samples. Y e ! (g j mod length (X e)) * ov (g j mod length (X e)))
                    / real_of_int n_samples,
                  \<lambda>j. g (j + nat n_samples))"
  using assms(3) by (simp add: predict_score_def sample_loop_value [OF assms(1,2,4)])

lemma predict_single:
  assumes "item (if choice = 0 then A_val e else B_val e) i = Inr x_new"
    and "predict_score e n_samples x_new g = Inr (score, g')"
  shows "predict e n_samples i (i + 1) choice g
           = Inr (snd (tally_step choice score (0, 0, 0, 0)), g')"
  using assms by (simp add: predict_def)

lemma small_globals_simps:
  "X small_globals = [[0]]" "Y small_globals = [- 1]" "A_val small_globals = [[0]]"
  "B_val small_globals = [[pi]]" "pars small_globals = small_weights"
  by (simp_all add: small_globals_def)

lemma zero_rng_shift: "(\<lambda>j. zero_rng (j + k)) = zero_rng" "(\<lambda>j. zero_rng (Suc j)) = zero_rng"
  by (simp_all add: zero_rng_def)

lemma overlaps_small_same: "overlaps small_weights [[0]] [[0]] = Inr 1"
  by (simp add: overlaps_single overlap_pair_small)

lemma predict_loop_tally:
  assumes "predict_loop e n_samples choice queries (tp, fn, fp, tn) g = Inr ((tp', fn', fp', tn'), g')"
  shows "(choice = 0 \<longrightarrow> tp' + fn' = tp + fn + int (length queries) \<and> fp' = fp \<and> tn' = tn)
       \<and> (choice \<noteq> 0 \<longrightarrow> fp' + tn' = fp + tn + int (length queries) \<and> tp' = tp \<and> fn' = fn)"
  using assms
proof (induction queries arbitrary: tp fn fp tn g)
  case Nil
  then show ?case by simp
next
  case (Cons i queries)
  from Cons.prems obtain prediction g1 where
    rest: "predict_loop e n_samples choice queries
             (snd (tally_step choice prediction (tp, fn, fp, tn))) g1
           = Inr ((tp', fn', fp', tn'), g')"
    by (auto split: sum.splits prod.splits)
  show ?case
  proof (cases "prediction < 0")
    case True
    then show ?thesis
      using rest Cons.IH by (cases "choice = 0") (fastforce+)
  next
    case False
    then show ?thesis
      using rest Cons.IH by (cases "choice = 0") (fastforce+)
  qed
qed

lemma predict_small: "predict small_globals 1 0 1 0 zero_rng = Inr ((1, 0, 0, 0), zero_rng)"
proof -
  have "predict_score small_globals 1 [0] zero_rng
      = Inr ((\<Sum>j<nat 1. Y small_globals ! (zero_rng j mod length (X small_globals))
                  * (\<lambda>k. 1) (zero_rng j mod length (X small_globals))) / real_of_int 1,
             \<lambda>j. zero_rng (j + nat 1))"
    by (rule predict_score_value) (simp_all add: small_globals_simps overlaps_small_same)
  then have "predict_score small_globals 1 [0] zero_rng = Inr (- 1, zero_rng)"
    by (simp add: small_globals_simps zero_rng_shift)
  then have "predict small_globals 1 0 (0 + 1) 0 zero_rng
      = Inr (snd (tally_step 0 (- 1) (0, 0, 0, 0)), zero_rng)"
    by (intro predict_single) (simp_all add: small_globals_simps item_def)
  then show ?thesis by simp
qed

lemma predict_score_returns:
  assumes "well_shaped (pars e) n" "all_length n (X e)" "length x_new = n"
    and "X e \<noteq> []" "length (Y e) = length (X e)" "n_samples \<noteq> 0"
  shows "\<exists>score. predict_score e n_samples x_new g = Inr (score, \<lambda>j. g (j + nat n_samples))"
proof -
  let ?ov = "\<lambda>k. fidelity (snd (pars e)) (project (pars e) (X e ! k)) (project (pars e) x_new)"
  have "\<forall>k<length (X e). overlaps (pars e) [X e ! k] [x_new] = Inr (?ov k)"
    using assms(1-3) by (simp add: overlaps_single_value all_length_def list_all_length)
  then show ?thesis
    using predict_score_value [OF assms(4,5,6), of x_new ?ov g] by blast
qed

lemma predict_loop_returns:
  assumes "well_shaped (pars e) n" "all_length n (X e)"
    and "X e \<noteq> []" "length (Y e) = length (X e)" "n_samples \<noteq> 0"
    and "\<forall>i\<in>set queries. \<exists>x. item (if choice = 0 then A_val e else B_val e) i = Inr x \<and> length x = n"
  shows "\<exists>t' g'. predict_loop e n_samples choice queries t g = Inr (t', g')"
  using assms(6)
proof (induction queries arbitrary: t g)
  case Nil
  show ?case by (cases t) simp
next
  case (Cons i queries)
  then obtain x where x: "item (if choice = 0 then A_val e else B_val e) i = Inr x" "length x = n"
    by auto
  obtain score where
    score: "predict_score e n_samples x g = Inr (score, \<lambda>j. g (j + nat n_samples))"
    using predict_score_returns [OF assms(1,2) x(2) assms(3,4,5)] by blast
  have "\<exists>t' g'. predict_loop e n_samples choice queries (snd (tally_step choice score t))
                   (\<lambda>j. g (j + nat n_samples)) = Inr (t', g')"
    using Cons by simp
  then show ?case
    by (simp add: x score)
qed

lemma predict_returns:
  assumes "well_shaped (pars e) n" "all_length n (X e)"
    and "X e \<noteq> []" "length (Y e) = length (X e)" "n_samples \<noteq> 0"
    and "all_length n (if choice = 0 then A_val e else B_val e)"
    and "0 \<le> pred_low" "pred_high \<le> int (length (if choice = 0 then A_val e else B_val e))"
  shows "\<exists>t' g'. predict e n_samples pred_low pred_high choice g = Inr (t', g')"
  unfolding predict_def
proof (rule predict_loop_returns [OF assms(1-5)])
  let ?Q = "if choice = 0 then A_val e else B_val e"
  show "\<forall>i\<in>set [pred_low..pred_high - 1]. \<exists>x. item ?Q i = Inr x \<and> length x = n"
  proof
    fix i assume "i \<in> set [pred_low..pred_high - 1]"
    then have i: "0 \<le> i" "i < int (length ?Q)"
      using assms(7,8) by auto
    then have "nat i < length ?Q" by simp
    then have "length (?Q ! nat i) = n"
      using assms(6) by (simp add: all_length_def list_all_length)
    then show "\<exists>x. item ?Q i = Inr x \<and> length x = n"
      using i by (simp add: item_def)
  qed
qed

lemma pool_globals_simps:
  "X pool_globals = [[0], [pi]]" "Y pool_globals = [- 1, 1]" "A_val pool_globals = [[0]]"
  "B_val pool_globals = [[pi], [0]]" "pars pool_globals = small_weights"
  by (simp_all add: pool_globals_def)

lemma pool_shapes:
  "well_shaped (pars pool_globals) 1" "all_length 1 (X pool_globals)" "X pool_globals \<noteq> []"
  "length (Y pool_globals) = length (X pool_globals)"
  using small_shapes by (simp_all add: pool_globals_simps all_length_def)

lemma overlaps_small: "overlaps small_weights [[s]] [[t]] = Inr ((cos ((s - t) / 2))\<^sup>2)"
  by (simp add: overlaps_single overlap_pair_small)

lemma pool_overlaps:
  assumes "\<forall>k<length (X pool_globals). overlaps (pars pool_globals) [X pool_globals ! k] [[t]] = Inr (ov k)"
  shows "ov 0 = (cos ((0 - t) / 2))\<^sup>2" "ov 1 = (cos ((pi - t) / 2))\<^sup>2"
proof -
  have "overlaps small_weights [[0]] [[t]] = Inr (ov 0)" "overlaps small_weights [[pi]] [[t]] = Inr (ov 1)"
    using assms by (simp_all add: pool_globals_simps all_set_conv_all_nth less_Suc_eq)
  then show "ov 0 = (cos ((0 - t) / 2))\<^sup>2" "ov 1 = (cos ((pi - t) / 2))\<^sup>2"
    by (simp_all add: overlaps_small)
qed

lemma sum_two: "(\<Sum>j<nat 2. f j) = f 0 + f (1::nat)"
  by (simp add: eval_nat_numeral)

lemma pool_items:
  "item (if (0::int) = 0 then A_val pool_globals else B_val pool_globals) 0 = Inr [0]"
  "item (if (1::int) = 0 then A_val pool_globals else B_val pool_globals) 0 = Inr [pi]"
  "item (if (1::int) = 0 then A_val pool_globals else B_val pool_globals) 1 = Inr [0]"
  by (simp_all add: pool_globals_simps item_def)

lemma pool_lengths: "length [0::real] = 1" "length [pi] = 1" "(1::int) \<le> 2"
  by simp_all

subsection \<open>The metrics cell on a pool of ants only\<close>

text \<open>
  With \<open>ants_only_globals\<close> both calls of \<^verbatim>\<open>predict\<close> call their query an ant.
\<close>

lemma ants_only_simps:
  "X ants_only_globals = [[0]]" "Y ants_only_globals = [1]" "A_val ants_only_globals = [[0]]"
  "B_val ants_only_globals = [[pi]]" "pars ants_only_globals = small_weights"
  by (simp_all add: ants_only_globals_def)

lemma ants_only_score:
  "predict_score ants_only_globals 20 [t] g
     = Inr ((cos ((0 - t) / 2))\<^sup>2, \<lambda>j. g (j + 20))"
proof -
  have "predict_score ants_only_globals 20 [t] g
      = Inr ((\<Sum>j<nat 20. Y ants_only_globals ! (g j mod length (X ants_only_globals))
                  * (\<lambda>k. (cos ((0 - t) / 2))\<^sup>2) (g j mod length (X ants_only_globals)))
               / real_of_int 20,
             \<lambda>j. g (j + nat 20))"
    by (rule predict_score_value)
       (simp_all add: ants_only_simps overlaps_single overlap_pair_small)
  then show ?thesis
    by (simp add: ants_only_simps)
qed

lemma ants_only_predict:
  "predict ants_only_globals 20 0 1 0 g = Inr ((0, 1, 0, 0), \<lambda>j. g (j + 20))"
  "predict ants_only_globals 20 0 1 1 g = Inr ((0, 0, 0, 1), \<lambda>j. g (j + 20))"
proof -
  have "predict ants_only_globals 20 0 (0 + 1) 0 g
      = Inr (snd (tally_step 0 ((cos ((0 - 0) / 2))\<^sup>2) (0, 0, 0, 0)), \<lambda>j. g (j + 20))"
    by (rule predict_single [OF _ ants_only_score]) (simp add: ants_only_simps item_def)
  then show "predict ants_only_globals 20 0 1 0 g = Inr ((0, 1, 0, 0), \<lambda>j. g (j + 20))"
    by simp
  have "predict ants_only_globals 20 0 (0 + 1) 1 g
      = Inr (snd (tally_step 1 ((cos ((0 - pi) / 2))\<^sup>2) (0, 0, 0, 0)), \<lambda>j. g (j + 20))"
    by (rule predict_single [OF _ ants_only_score]) (simp add: ants_only_simps item_def)
  then show "predict ants_only_globals 20 0 1 1 g = Inr ((0, 0, 0, 1), \<lambda>j. g (j + 20))"
    by simp
qed

lemma report_ants_only:
  "report ants_only_globals zero_rng = Inl ZeroDivisionError"
  by (simp add: report_def ants_only_simps ants_only_predict totals_def metrics_def divide_int_def)

subsection \<open>Symmetry and bounds over the reals\<close>

text \<open>
  Over the reals the overlap of two points does not depend on their order, and the mean
  overlap lies between \<open>0\<close> and \<open>1\<close>. The notebook computes in 64-bit floats: the two
  orders run the operations on different wires, so that the results can differ in their
  last digits, and a result can leave the interval by a rounding error. The two lemmas
  are about the exact values only.
\<close>

lemma overlap_symmetric_exact:
  "overlap_pair w a b = overlap_pair w b a \<and> overlaps w [a] [b] = overlaps w [b] [a]"
  unfolding overlaps_single using overlap_pair_sym [of w a b] by simp

lemma overlaps_in_unit_interval_exact:
  assumes "well_shaped w n" "all_length n X1" "all_length n X2" "X1 \<noteq> []" "X2 \<noteq> []"
  shows "\<exists>v. overlaps w X1 X2 = Inr v \<and> 0 \<le> v \<and> v \<le> 1
           \<and> (\<exists>r. (\<forall>x1\<in>set X1. \<forall>x2\<in>set X2.
                     overlap_pair w x1 x2 = Inr (r x1 x2) \<and> 0 \<le> r x1 x2 \<and> r x1 x2 \<le> 1)
                 \<and> v = sum_list (map (\<lambda>x1. sum_list (map (\<lambda>x2. r x1 x2) X2)) X1)
                        / real (length X1 * length X2))"
proof -
  let ?r = "\<lambda>x1 x2. fidelity (snd w) (project w x1) (project w x2)"
  let ?v = "sum_list (map (\<lambda>x1. sum_list (map (\<lambda>x2. ?r x1 x2) X2)) X1) / real (length X1 * length X2)"
  have pairs: "\<forall>x1\<in>set X1. \<forall>x2\<in>set X2.
      overlap_pair w x1 x2 = Inr (?r x1 x2) \<and> 0 \<le> ?r x1 x2 \<and> ?r x1 x2 \<le> 1"
    using assms(1-3) by (simp add: all_length_def list_all_iff overlap_pair_value fidelity_bounds)
  have "overlaps w X1 X2 = Inr ?v"
    by (rule overlaps_value [OF assms])
  moreover have "0 \<le> ?v \<and> ?v \<le> 1"
    by (rule mean_bounds) (simp_all add: fidelity_bounds assms(4,5))
  ultimately show ?thesis
    using pairs by (intro exI [where x = ?v] conjI exI [where x = ?r]) simp_all
qed

section \<open>The claims\<close>

text \<open>
  Claim C1. For a parameter bundle and two non-empty classes \<open>A\<close> and \<open>B\<close> of feature
  vectors whose shapes fit, the three mean overlaps \<open>aa\<close>, \<open>bb\<close>, \<open>ab\<close> are returned and
  \<open>cost\<close> returns \<open>1 - 0.5 * d\<close> with \<open>d = -2 * ab + (aa + bb)\<close>; nothing clamps the
  result.
\<close>

theorem cost_formula:
  assumes "well_shaped w n" "all_length n A" "all_length n B" "A \<noteq> []" "B \<noteq> []"
  shows "\<exists>aa bb ab. overlaps w A A = Inr aa \<and> overlaps w B B = Inr bb \<and> overlaps w A B = Inr ab
           \<and> cost w A B = Inr (1 - 0.5 * (- 2 * ab + (aa + bb)))"
proof -
  obtain aa where aa: "overlaps w A A = Inr aa"
    using overlaps_value [OF assms(1,2,2,4,4)] by blast
  obtain bb where bb: "overlaps w B B = Inr bb"
    using overlaps_value [OF assms(1,3,3,5,5)] by blast
  obtain ab where ab: "overlaps w A B = Inr ab"
    using overlaps_value [OF assms(1,2,3,4,5)] by blast
  show ?thesis
    by (simp add: cost_def aa bb ab)
qed

theorem cost_formula_witness:
  "well_shaped small_weights 1 \<and> all_length 1 [[0]] \<and> all_length 1 [[pi]]
   \<and> [[0::real]] \<noteq> [] \<and> [[pi]] \<noteq> []
   \<and> cost small_weights [[0]] [[pi]] = Inr 0"
proof -
  obtain aa bb ab where
    "overlaps small_weights [[0]] [[0]] = Inr aa"
    "overlaps small_weights [[pi]] [[pi]] = Inr bb"
    "overlaps small_weights [[0]] [[pi]] = Inr ab"
    and c: "cost small_weights [[0]] [[pi]] = Inr (1 - 0.5 * (- 2 * ab + (aa + bb)))"
    using cost_formula [OF small_shapes small_lists(2,3)] by blast
  then have "aa = 1" "bb = 1" "ab = 0"
    by (simp_all add: overlaps_single overlap_pair_small)
  with c show ?thesis
    using small_shapes small_lists by simp
qed

text \<open>
  Claim C2. For non-empty lists \<open>X1\<close>, \<open>X2\<close> of feature vectors, \<open>overlaps\<close> returns the sum
  of the pairwise overlaps over all \<open>len(X1) * len(X2)\<close> ordered pairs, divided by
  \<open>len(X1) * len(X2)\<close>.
\<close>

theorem overlaps_is_mean:
  assumes "well_shaped w n" "all_length n X1" "all_length n X2" "X1 \<noteq> []" "X2 \<noteq> []"
  shows "\<exists>f. (\<forall>x1\<in>set X1. \<forall>x2\<in>set X2. overlap_pair w x1 x2 = Inr (f x1 x2))
           \<and> overlaps w X1 X2
               = Inr (sum_list (map (\<lambda>x1. sum_list (map (\<lambda>x2. f x1 x2) X2)) X1)
                      / real (length X1 * length X2))"
proof (intro exI conjI)
  show "\<forall>x1\<in>set X1. \<forall>x2\<in>set X2.
          overlap_pair w x1 x2 = Inr (fidelity (snd w) (project w x1) (project w x2))"
    using assms(1-3) by (simp add: all_length_def list_all_iff overlap_pair_value)
  show "overlaps w X1 X2
      = Inr (sum_list (map (\<lambda>x1. sum_list (map (\<lambda>x2.
                fidelity (snd w) (project w x1) (project w x2)) X2)) X1)
             / real (length X1 * length X2))"
    by (rule overlaps_value [OF assms])
qed

theorem overlaps_is_mean_witness:
  "well_shaped small_weights 1 \<and> all_length 1 [[0], [pi]] \<and> all_length 1 [[0]]
   \<and> [[0], [pi]] \<noteq> [] \<and> [[0::real]] \<noteq> []
   \<and> overlap_pair small_weights [0] [0] = Inr 1
   \<and> overlap_pair small_weights [pi] [0] = Inr 0
   \<and> overlaps small_weights [[0], [pi]] [[0]] = Inr ((1 + 0) / real (2 * 1))"
proof -
  obtain f where
    f: "\<forall>x1\<in>set [[0], [pi]]. \<forall>x2\<in>set [[0]]. overlap_pair small_weights x1 x2 = Inr (f x1 x2)"
    and m: "overlaps small_weights [[0], [pi]] [[0]]
              = Inr (sum_list (map (\<lambda>x1. sum_list (map (\<lambda>x2. f x1 x2) [[0]])) [[0], [pi]])
                     / real (length [[0], [pi :: real]] * length [[0 :: real]]))"
    using overlaps_is_mean [OF small_shapes small_lists(1,2)] by blast
  from f have "f [0] [0] = 1" "f [pi] [0] = 0"
    by (simp_all add: overlap_pair_small)
  with m show ?thesis
    using small_shapes small_lists by (simp add: overlap_pair_small)
qed

text \<open>
  Claim C3. For a query \<open>x_new\<close> and \<open>n_samples \<ge> 1\<close>, the prediction score is the sum over
  the \<open>n_samples\<close> draws (each an index into the whole training pool \<open>X\<close>, repetitions
  allowed) of \<open>label * overlap(pars, sample, query)\<close>, divided by \<open>n_samples\<close>. The
  query is called \<^verbatim>\<open>"Bee"\<close> (class A, label \<open>-1\<close>) exactly when the score is below \<open>0\<close> and
  \<^verbatim>\<open>"Ant"\<close> (class B, label \<open>+1\<close>) otherwise, and the tally shows it: on a score below \<open>0\<close>
  the loop body adds one to \<open>truepos\<close> (\<open>choice = 0\<close>) or to \<open>falsepos\<close> (any other
  \<open>choice\<close>), on a score of \<open>0\<close> or more it adds one to \<open>falseneg\<close> or to \<open>trueneg\<close>, so that
  \<open>predict\<close> on that one query returns \<open>(1,0,0,0)\<close>, \<open>(0,0,1,0)\<close>, \<open>(0,1,0,0)\<close> or
  \<open>(0,0,0,1)\<close>. The draws are the outputs \<open>g 0, g 1, ...\<close> of the generator, reduced into
  the range of the pool.
\<close>

theorem prediction_score:
  assumes "well_shaped (pars e) n" "all_length n (X e)" "length x_new = n"
    and "X e \<noteq> []" "length (Y e) = length (X e)" "1 \<le> n_samples"
    and "item (if choice = 0 then A_val e else B_val e) i = Inr x_new"
  shows "\<exists>ov score.
           (\<forall>k<length (X e). overlaps (pars e) [X e ! k] [x_new] = Inr (ov k))
         \<and> score = (\<Sum>j<nat n_samples. Y e ! (g j mod length (X e)) * ov (g j mod length (X e)))
                      / real_of_int n_samples
         \<and> predict_score e n_samples x_new g = Inr (score, \<lambda>j. g (j + nat n_samples))
         \<and> fst (tally_step choice score (tp, fn, fp, tn)) = (if score < 0 then ''Bee'' else ''Ant'')
         \<and> predict_loop e n_samples choice [i] (tp, fn, fp, tn) g
             = Inr (if score < 0
                    then (if choice = 0 then (tp + 1, fn, fp, tn) else (tp, fn, fp + 1, tn))
                    else (if choice = 0 then (tp, fn + 1, fp, tn) else (tp, fn, fp, tn + 1)),
                    \<lambda>j. g (j + nat n_samples))
         \<and> predict e n_samples i (i + 1) choice g
             = Inr (if score < 0
                    then (if choice = 0 then (1, 0, 0, 0) else (0, 0, 1, 0))
                    else (if choice = 0 then (0, 1, 0, 0) else (0, 0, 0, 1)),
                    \<lambda>j. g (j + nat n_samples))"
proof -
  let ?ov = "\<lambda>k. fidelity (snd (pars e)) (project (pars e) (X e ! k)) (project (pars e) x_new)"
  let ?score = "(\<Sum>j<nat n_samples. Y e ! (g j mod length (X e)) * ?ov (g j mod length (X e)))
                      / real_of_int n_samples"
  have ov: "\<forall>k<length (X e). overlaps (pars e) [X e ! k] [x_new] = Inr (?ov k)"
    using assms(1-3) by (simp add: overlaps_single_value all_length_def list_all_length)
  have score: "predict_score e n_samples x_new g = Inr (?score, \<lambda>j. g (j + nat n_samples))"
    using assms(6) by (intro predict_score_value assms(4,5) ov) simp
  have step: "fst (tally_step choice ?score (tp, fn, fp, tn)) = (if ?score < 0 then ''Bee'' else ''Ant'')"
    by simp
  have loop: "predict_loop e n_samples choice [i] (tp, fn, fp, tn) g
             = Inr (if ?score < 0
                    then (if choice = 0 then (tp + 1, fn, fp, tn) else (tp, fn, fp + 1, tn))
                    else (if choice = 0 then (tp, fn + 1, fp, tn) else (tp, fn, fp, tn + 1)),
                    \<lambda>j. g (j + nat n_samples))"
    using assms(7) score by simp
  have one: "predict e n_samples i (i + 1) choice g
             = Inr (if ?score < 0
                    then (if choice = 0 then (1, 0, 0, 0) else (0, 0, 1, 0))
                    else (if choice = 0 then (0, 1, 0, 0) else (0, 0, 0, 1)),
                    \<lambda>j. g (j + nat n_samples))"
    using assms(7) score by (simp add: predict_def)
  show ?thesis
    using ov score step loop one
    by (intro exI [where x = ?ov] exI [where x = ?score] conjI) simp_all
qed

theorem prediction_score_witness:
  "well_shaped (pars pool_globals) 1 \<and> all_length 1 (X pool_globals) \<and> length [0::real] = 1
   \<and> X pool_globals \<noteq> [] \<and> length (Y pool_globals) = length (X pool_globals) \<and> (1::int) \<le> 2
   \<and> item (if (0::int) = 0 then A_val pool_globals else B_val pool_globals) 0 = Inr [0]
   \<and> predict_score pool_globals 2 [0] count_rng = Inr (- 1 / 2, \<lambda>j. count_rng (j + 2))
   \<and> predict pool_globals 2 0 (0 + 1) 0 count_rng = Inr ((1, 0, 0, 0), \<lambda>j. count_rng (j + 2))
   \<and> predict_score pool_globals 2 [0] one_rng = Inr (0, \<lambda>j. one_rng (j + 2))
   \<and> predict pool_globals 2 0 (0 + 1) 0 one_rng = Inr ((0, 1, 0, 0), \<lambda>j. one_rng (j + 2))
   \<and> predict pool_globals 2 1 (1 + 1) 1 count_rng = Inr ((0, 0, 1, 0), \<lambda>j. count_rng (j + 2))
   \<and> predict_score pool_globals 2 [pi] count_rng = Inr (1 / 2, \<lambda>j. count_rng (j + 2))
   \<and> predict pool_globals 2 0 (0 + 1) 1 count_rng = Inr ((0, 0, 0, 1), \<lambda>j. count_rng (j + 2))"
proof -
  note hyps = pool_shapes(1,2) pool_lengths(1) pool_shapes(3,4) pool_lengths(3)
  have tp: "predict_score pool_globals 2 [0] count_rng = Inr (- 1 / 2, \<lambda>j. count_rng (j + 2))
          \<and> predict pool_globals 2 0 (0 + 1) 0 count_rng = Inr ((1, 0, 0, 0), \<lambda>j. count_rng (j + 2))"
  proof -
    obtain ov score where
      ov: "\<forall>k<length (X pool_globals). overlaps (pars pool_globals) [X pool_globals ! k] [[0]] = Inr (ov k)"
      and score: "score = (\<Sum>j<nat 2. Y pool_globals ! (count_rng j mod length (X pool_globals))
                              * ov (count_rng j mod length (X pool_globals))) / real_of_int 2"
      and ps: "predict_score pool_globals 2 [0] count_rng = Inr (score, \<lambda>j. count_rng (j + nat 2))"
      and p: "predict pool_globals 2 0 (0 + 1) 0 count_rng
               = Inr (if score < 0
                      then (if (0::int) = 0 then (1, 0, 0, 0) else (0, 0, 1, 0))
                      else (if (0::int) = 0 then (0, 1, 0, 0) else (0, 0, 0, 1)),
                      \<lambda>j. count_rng (j + nat 2))"
      using prediction_score [OF hyps pool_items(1), of count_rng 0 0 0 0] by blast
    have "score = - 1 / 2"
      unfolding score sum_two using pool_overlaps [OF ov]
      by (simp add: pool_globals_simps count_rng_def)
    with ps p show ?thesis by simp
  qed
  have fn: "predict_score pool_globals 2 [0] one_rng = Inr (0, \<lambda>j. one_rng (j + 2))
          \<and> predict pool_globals 2 0 (0 + 1) 0 one_rng = Inr ((0, 1, 0, 0), \<lambda>j. one_rng (j + 2))"
  proof -
    obtain ov score where
      ov: "\<forall>k<length (X pool_globals). overlaps (pars pool_globals) [X pool_globals ! k] [[0]] = Inr (ov k)"
      and score: "score = (\<Sum>j<nat 2. Y pool_globals ! (one_rng j mod length (X pool_globals))
                              * ov (one_rng j mod length (X pool_globals))) / real_of_int 2"
      and ps: "predict_score pool_globals 2 [0] one_rng = Inr (score, \<lambda>j. one_rng (j + nat 2))"
      and p: "predict pool_globals 2 0 (0 + 1) 0 one_rng
               = Inr (if score < 0
                      then (if (0::int) = 0 then (1, 0, 0, 0) else (0, 0, 1, 0))
                      else (if (0::int) = 0 then (0, 1, 0, 0) else (0, 0, 0, 1)),
                      \<lambda>j. one_rng (j + nat 2))"
      using prediction_score [OF hyps pool_items(1), of one_rng 0 0 0 0] by blast
    have "score = 0"
      unfolding score sum_two using pool_overlaps [OF ov]
      by (simp add: pool_globals_simps one_rng_def)
    with ps p show ?thesis by simp
  qed
  have fp: "predict pool_globals 2 1 (1 + 1) 1 count_rng = Inr ((0, 0, 1, 0), \<lambda>j. count_rng (j + 2))"
  proof -
    obtain ov score where
      ov: "\<forall>k<length (X pool_globals). overlaps (pars pool_globals) [X pool_globals ! k] [[0]] = Inr (ov k)"
      and score: "score = (\<Sum>j<nat 2. Y pool_globals ! (count_rng j mod length (X pool_globals))
                              * ov (count_rng j mod length (X pool_globals))) / real_of_int 2"
      and p: "predict pool_globals 2 1 (1 + 1) 1 count_rng
               = Inr (if score < 0
                      then (if (1::int) = 0 then (1, 0, 0, 0) else (0, 0, 1, 0))
                      else (if (1::int) = 0 then (0, 1, 0, 0) else (0, 0, 0, 1)),
                      \<lambda>j. count_rng (j + nat 2))"
      using prediction_score [OF hyps pool_items(3), of count_rng 0 0 0 0] by blast
    have "score = - 1 / 2"
      unfolding score sum_two using pool_overlaps [OF ov]
      by (simp add: pool_globals_simps count_rng_def)
    with p show ?thesis by simp
  qed
  have tn: "predict_score pool_globals 2 [pi] count_rng = Inr (1 / 2, \<lambda>j. count_rng (j + 2))
          \<and> predict pool_globals 2 0 (0 + 1) 1 count_rng = Inr ((0, 0, 0, 1), \<lambda>j. count_rng (j + 2))"
  proof -
    note hyps' = pool_shapes(1,2) pool_lengths(2) pool_shapes(3,4) pool_lengths(3)
    obtain ov score where
      ov: "\<forall>k<length (X pool_globals). overlaps (pars pool_globals) [X pool_globals ! k] [[pi]] = Inr (ov k)"
      and score: "score = (\<Sum>j<nat 2. Y pool_globals ! (count_rng j mod length (X pool_globals))
                              * ov (count_rng j mod length (X pool_globals))) / real_of_int 2"
      and ps: "predict_score pool_globals 2 [pi] count_rng = Inr (score, \<lambda>j. count_rng (j + nat 2))"
      and p: "predict pool_globals 2 0 (0 + 1) 1 count_rng
               = Inr (if score < 0
                      then (if (1::int) = 0 then (1, 0, 0, 0) else (0, 0, 1, 0))
                      else (if (1::int) = 0 then (0, 1, 0, 0) else (0, 0, 0, 1)),
                      \<lambda>j. count_rng (j + nat 2))"
      using prediction_score [OF hyps' pool_items(2), of count_rng 0 0 0 0] by blast
    have "score = 1 / 2"
      unfolding score sum_two using pool_overlaps [OF ov]
      by (simp add: pool_globals_simps count_rng_def)
    with ps p show ?thesis by simp
  qed
  show ?thesis
    using tp fn fp tn pool_shapes pool_items(1) by simp
qed

text \<open>
  Claim C4, amended. Whenever \<open>predict\<close> returns, with \<open>choice = 0\<close> the tally has
  \<open>truepos + falseneg = max(0, pred_high - pred_low)\<close>, the number of class-A queries
  evaluated, and \<open>falsepos = trueneg = 0\<close>; with any other \<open>choice\<close> it has
  \<open>falsepos + trueneg = max(0, pred_high - pred_low)\<close> and \<open>truepos = falseneg = 0\<close>.
  (Lemma \<open>predict_returns\<close>: it does return when the shapes fit, \<open>n_samples\<close> is not \<open>0\<close>
  and the indices from \<open>pred_low \<ge> 0\<close> to \<open>pred_high\<close> are within the queried array.)
\<close>

theorem confusion_sums:
  assumes "predict e n_samples pred_low pred_high choice g
             = Inr ((truepos, falseneg, falsepos, trueneg), g')"
  shows "(choice = 0 \<longrightarrow> truepos + falseneg = max 0 (pred_high - pred_low)
            \<and> falsepos = 0 \<and> trueneg = 0)
       \<and> (choice \<noteq> 0 \<longrightarrow> falsepos + trueneg = max 0 (pred_high - pred_low)
            \<and> truepos = 0 \<and> falseneg = 0)"
  using predict_loop_tally [OF assms [unfolded predict_def]]
  by (simp add: max_def)

theorem confusion_sums_witness:
  "predict small_globals 1 0 1 0 zero_rng = Inr ((1, 0, 0, 0), zero_rng)
   \<and> (1::int) + 0 = max 0 (1 - 0)"
  using confusion_sums [OF predict_small] predict_small by simp

text \<open>
  The claim as it was stated gives the sum as \<open>pred_high - pred_low\<close>. For
  \<open>pred_low = 1\<close> and \<open>pred_high = 0\<close> the range is empty, \<open>predict\<close> returns the tally
  \<open>(0, 0, 0, 0)\<close>, and \<open>pred_high - pred_low = -1\<close>.
\<close>

theorem confusion_sums_counterexample:
  "predict empty_globals 1 1 0 0 zero_rng = Inr ((0, 0, 0, 0), zero_rng)
   \<and> (0::int) + 0 \<noteq> 0 - 1"
  by (simp add: predict_def)

text \<open>
  Claim C5, amended. No division of the derived metrics is guarded. For a tally of
  counts, the computation raises \<^verbatim>\<open>ZeroDivisionError\<close> exactly when there is no true
  positive or no class-B query (\<open>fp + tn = 0\<close>); otherwise it returns precision, recall,
  accuracy, specificity and F1 by the standard formulas.
\<close>

theorem metrics_unguarded:
  assumes "0 \<le> tp" "0 \<le> fn" "0 \<le> fp" "0 \<le> tn"
  shows "metrics (tp, fn, fp, tn) =
     (if tp = 0 \<or> fp + tn = 0 then Inl ZeroDivisionError
      else Inr (real_of_int tp / real_of_int (tp + fp),
                real_of_int tp / real_of_int (tp + fn),
                real_of_int (tp + tn) / real_of_int (tp + fn + fp + tn),
                real_of_int tn / real_of_int (tn + fp),
                2 * (real_of_int tp / real_of_int (tp + fp)) * (real_of_int tp / real_of_int (tp + fn))
                  / (real_of_int tp / real_of_int (tp + fp) + real_of_int tp / real_of_int (tp + fn))))"
proof (cases "tp = 0 \<or> fp + tn = 0")
  case True
  then show ?thesis
    using assms by (auto simp: metrics_def divide_int_def divide_float_def)
next
  case False
  with assms have pos: "0 < tp" "0 < fp + tn"
    by simp_all
  have "0 < real_of_int tp / real_of_int (tp + fp)" "0 < real_of_int tp / real_of_int (tp + fn)"
    using pos assms by simp_all
  then have "real_of_int tp / real_of_int (tp + fp) + real_of_int tp / real_of_int (tp + fn) \<noteq> 0"
    by linarith
  then show ?thesis
    using False pos assms
    by (simp add: metrics_def divide_int_def divide_float_def add.commute)
qed

theorem metrics_unguarded_witness:
  "(0::int) \<le> 42 \<and> (0::int) \<le> 40 \<and> (0::int) \<le> 43 \<and> (0::int) \<le> 34
   \<and> metrics (42, 40, 43, 34) = Inr (42 / 85, 42 / 82, 76 / 159, 34 / 77, 84 / 167)
   \<and> metrics (0, 82, 43, 34) = Inl ZeroDivisionError"
  using metrics_unguarded [of 42 40 43 34] metrics_unguarded [of 0 82 43 34] by simp

text \<open>
  The claim as it was stated has the division by zero guarded and reported as an
  undefined metric. With no predicted positive (all \<open>82\<close> class-A queries and all \<open>77\<close>
  class-B queries called \<^verbatim>\<open>"Ant"\<close>, totals \<open>[0, 82, 0, 77]\<close>) the first division raises
  \<^verbatim>\<open>ZeroDivisionError\<close>. Lemma \<open>report_ants_only\<close> reaches such totals through the whole
  cell: with a training pool of ants only every score is \<open>0\<close> or more and every query is
  called \<^verbatim>\<open>"Ant"\<close>.
\<close>

theorem metrics_counterexample:
  "metrics (totals (0, 82, 0, 0) (0, 0, 0, 77)) = Inl ZeroDivisionError"
  by (simp add: totals_def metrics_def divide_int_def)

text \<open>
  Claim C6. The overlap of a feature vector with itself is \<open>1\<close>:
  \<open>overlaps(weights, [x], [x]) = 1\<close>.
\<close>

theorem overlap_self:
  assumes "well_shaped w n" "length x = n"
  shows "overlap_pair w x x = Inr 1 \<and> overlaps w [x] [x] = Inr 1"
  using assms by (simp add: overlaps_single overlap_pair_value fidelity_self)

theorem overlap_self_witness:
  "well_shaped example_weights 4 \<and> length [0, 1, 0, 0 :: real] = 4
   \<and> overlap_pair example_weights [0, 1, 0, 0] [0, 1, 0, 0] = Inr 1
   \<and> overlaps example_weights [[0, 1, 0, 0]] [[0, 1, 0, 0]] = Inr 1"
  using overlap_self [OF example_shapes(1), of "[0, 1, 0, 0]"] example_shapes(1) by simp

text \<open>
  Claim C9. For a feature vector of length \<open>2\<close>, weights of shape \<open>(L, 3)\<close> and two
  distinct positions \<open>a\<close>, \<open>b\<close>, \<open>QAOAEmbedding\<close> queues, for each of the \<open>L\<close> layers, one
  \<^verbatim>\<open>RX\<close> per position by the feature of that index, the coupling of the two positions by
  the layer's first weight (\<^verbatim>\<open>CNOT\<close>, \<^verbatim>\<open>RZ\<close>, \<^verbatim>\<open>CNOT\<close>; lemma \<open>coupling_phase\<close> shows that
  the three act as one phase on the parity of the two bits) and one \<^verbatim>\<open>RY\<close> per position by
  the layer's other two weights; then the \<^verbatim>\<open>RX\<close> pair once more. That makes \<open>L + 1\<close>
  feature encodings and \<open>L\<close> couplings with their local fields.
\<close>

theorem QAOAEmbedding_sequence:
  assumes "length features = 2" "list_all (\<lambda>row. length row = 3) weights" "a \<noteq> b"
  shows "QAOAEmbedding features weights [a, b]
           = Inr (concat (map (\<lambda>row. [RX (features ! 0) a, RX (features ! 1) b]
                                   @ [CNOT b a, RZ (row ! 0) a, CNOT b a]
                                   @ [RY (row ! 1) a, RY (row ! 2) b]) weights)
                  @ [RX (features ! 0) a, RX (features ! 1) b])
       \<and> QAOAEmbedding features weights [a, b] = Inr (ansatz_sequence features weights a b)
       \<and> length (filter is_RX (ansatz_sequence features weights a b)) = 2 * (length weights + 1)
       \<and> length (filter is_CNOT (ansatz_sequence features weights a b)) = 2 * length weights
       \<and> length (filter is_RZ (ansatz_sequence features weights a b)) = length weights
       \<and> length (filter is_RY (ansatz_sequence features weights a b)) = 2 * length weights"
proof -
  have "shapes_ok features weights"
    using assms(1,2) by (auto simp: shapes_ok_def list_all_iff)
  then have A: "QAOAEmbedding features weights [a, b] = Inr (ansatz_sequence features weights a b)"
    using assms(3) by (simp add: QAOAEmbedding_pair)
  have B: "ansatz_sequence features weights a b
      = concat (map (\<lambda>row. [RX (features ! 0) a, RX (features ! 1) b]
                                   @ [CNOT b a, RZ (row ! 0) a, CNOT b a]
                                   @ [RY (row ! 1) a, RY (row ! 2) b]) weights)
                  @ [RX (features ! 0) a, RX (features ! 1) b]"
    by (simp add: ansatz_sequence_def ansatz_layer_def [abs_def] feature_rotations_def)
  have C: "QAOAEmbedding features weights [a, b]
           = Inr (concat (map (\<lambda>row. [RX (features ! 0) a, RX (features ! 1) b]
                                   @ [CNOT b a, RZ (row ! 0) a, CNOT b a]
                                   @ [RY (row ! 1) a, RY (row ! 2) b]) weights)
                  @ [RX (features ! 0) a, RX (features ! 1) b])"
    using A unfolding B .
  show ?thesis
    by (intro conjI C A ansatz_sequence_counts)
qed

theorem QAOAEmbedding_sequence_witness:
  "length [0.5, 0.25 :: real] = 2 \<and> list_all (\<lambda>row. length row = 3) [[1, 2, 3 :: real]] \<and> (1::nat) \<noteq> 2
   \<and> QAOAEmbedding [0.5, 0.25] [[1, 2, 3]] [1, 2]
       = Inr [RX 0.5 1, RX 0.25 2, CNOT 2 1, RZ 1 1, CNOT 2 1, RY 2 1, RY 3 2, RX 0.5 1, RX 0.25 2]"
  using QAOAEmbedding_sequence [of "[0.5, 0.25]" "[[1, 2, 3]]" 1 2] by simp

text \<open>
  Claim C10. When \<open>X1\<close> or \<open>X2\<close> is empty, \<open>overlaps\<close> returns no value: it fails with
  \<^verbatim>\<open>ZeroDivisionError\<close>, whatever the parameter bundle.
\<close>

theorem overlaps_empty:
  assumes "X1 = [] \<or> X2 = []"
  shows "overlaps w X1 X2 = Inl ZeroDivisionError"
  using assms by (auto simp: overlaps_def overlaps_outer_no_inner)

theorem overlaps_empty_witness:
  "overlaps example_weights [] example_B = Inl ZeroDivisionError
   \<and> overlaps example_weights example_A [] = Inl ZeroDivisionError
   \<and> overlaps ([], []) [] [] = Inl ZeroDivisionError"
  using overlaps_empty [of "[]" example_B example_weights]
    overlaps_empty [of example_A "[]" example_weights]
    overlaps_empty [of "[]" "[]" "([], [])"]
  by simp

end
